theory Spec2Isabelle
  imports Main "HOL-Library.AList" "HOL-Library.Char_ord" "HOL-Library.List_Lexorder"
begin

section \<open>Conventions\<close>

text \<open>
  The development embeds the optimised content script of the invoice downloader
  (the classes \<^verbatim>\<open>InvoiceDataManager\<close>, \<^verbatim>\<open>DirectDownloadManager\<close> and
  \<^verbatim>\<open>InvoiceDownloader\<close>) and the row extraction helpers of \<^verbatim>\<open>content.js\<close>.

  \<^item> A JavaScript string is a \<open>string\<close>; every character stands for one ASCII code unit.
    The relational operators on strings compare code units lexicographically, which is
    the order of \<open>HOL-Library.List_Lexorder\<close> over \<open>HOL-Library.Char_ord\<close>.
  \<^item> A string is falsy exactly when it is empty.
  \<^item> \<^verbatim>\<open>Date.now()\<close> is read from the environment: every operation that calls it takes
    the value as an argument.
  \<^item> The calls to \<^verbatim>\<open>chrome.storage.local\<close> only write to an external store that no
    modelled method reads back; they are left out of the state. So are the writes to the
    page (progress bar, status cells, alerts) and to the console.
  \<^item> A method that can throw returns a sum, with the exception on the left.
\<close>

section \<open>Status store\<close>

text \<open>\<^verbatim>\<open>CONFIG.RETRY_ATTEMPTS\<close>.\<close>

definition RETRY_ATTEMPTS :: nat where
  "RETRY_ATTEMPTS = 3"

text \<open>
  The objects stored in \<^verbatim>\<open>downloadStatus\<close>. The property \<^verbatim>\<open>error\<close> exists only on
  the objects written by \<^verbatim>\<open>markAsFailed\<close>.
\<close>

record status_entry =
  entry_status :: string
  entry_timestamp :: nat
  entry_attempts :: nat
  entry_error :: "string option"

text \<open>
  A row of the table after parsing. The values of \<^verbatim>\<open>buttonData\<close> are what
  \<^verbatim>\<open>getAttribute\<close> returned: a string, or \<^verbatim>\<open>null\<close> for an absent attribute, or
  \<^verbatim>\<open>undefined\<close> when the object has no such property. The property \<^verbatim>\<open>element\<close>, the
  DOM node of the row, is left out: no method of the model reads it. The methods that
  write \<^verbatim>\<open>isSelected\<close> through the arrays (\<^verbatim>\<open>toggleSelection\<close>,
  \<^verbatim>\<open>selectAllVisible\<close>, \<^verbatim>\<open>selectByStatus\<close>) are not part of the model either, so a
  parsed row is never changed after it is made and stands here as a value.
\<close>

datatype jsval = Undefined | Null | Str string

record button_data =
  btn_endDate :: jsval
  btn_fileType :: jsval
  btn_filterName :: jsval
  btn_invoice :: jsval
  btn_payeeRegistrationNumber :: jsval
  btn_rarId :: jsval
  btn_shedDocumentName :: jsval

record row_data =
  index :: nat
  invoiceId :: string
  startDate :: string
  endDate :: string
  marketplace :: string
  textContent :: string
  documentVersionId :: string
  buttonData :: button_data
  isVisible :: bool
  isSelected :: bool

text \<open>
  The fields of \<^verbatim>\<open>InvoiceDataManager\<close>. A JavaScript \<^verbatim>\<open>Map\<close> iterates in insertion
  order, and \<^verbatim>\<open>applyFilters\<close> depends on that order for \<^verbatim>\<open>filterCache\<close>, so this
  map is an association list, oldest insertion first. The arrays produced by
  \<^verbatim>\<open>Array.prototype.filter\<close> are objects with an identity: they live in \<open>arrays\<close>,
  the address of an array is its position there, and \<open>filteredRows\<close> and the values of
  \<open>filterCache\<close> are addresses.
\<close>

record data_manager =
  allRows :: "row_data list"
  arrays :: "row_data list list"
  filteredRows :: nat
  downloadedInvoices :: "string set"
  rowDataCache :: "nat \<rightharpoonup> row_data"
  filterCache :: "(string \<times> nat) list"
  isInitialized :: bool
  downloadStatus :: "string \<rightharpoonup> status_entry"

text \<open>The constructor: \<^verbatim>\<open>filteredRows\<close> is a fresh empty array, at address 0.\<close>

definition new_InvoiceDataManager :: data_manager where
  "new_InvoiceDataManager =
     \<lparr>allRows = [], arrays = [[]], filteredRows = 0, downloadedInvoices = {},
      rowDataCache = Map.empty, filterCache = [], isInitialized = False,
      downloadStatus = Map.empty\<rparr>"

text \<open>
  \<^verbatim>\<open>(this.downloadStatus.get(invoiceId)?.attempts || 0)\<close> and
  \<^verbatim>\<open>(this.downloadStatus.get(invoiceId) || { attempts: 0 }).attempts\<close>.
\<close>

definition attempts_of :: "data_manager \<Rightarrow> string \<Rightarrow> nat" where
  "attempts_of dm i = (case downloadStatus dm i of None \<Rightarrow> 0 | Some e \<Rightarrow> entry_attempts e)"

definition markAsDownloaded :: "data_manager \<Rightarrow> string \<Rightarrow> nat \<Rightarrow> data_manager" where
  "markAsDownloaded dm i now =
     dm\<lparr>downloadedInvoices := insert i (downloadedInvoices dm),
        downloadStatus := (downloadStatus dm)(i \<mapsto>
          \<lparr>entry_status = ''downloaded'', entry_timestamp = now,
           entry_attempts = attempts_of dm i + 1, entry_error = None\<rparr>)\<rparr>"

definition markAsFailed :: "data_manager \<Rightarrow> string \<Rightarrow> string \<Rightarrow> nat \<Rightarrow> data_manager" where
  "markAsFailed dm i err now =
     dm\<lparr>downloadStatus := (downloadStatus dm)(i \<mapsto>
          \<lparr>entry_status = ''failed'', entry_timestamp = now,
           entry_attempts = attempts_of dm i + 1, entry_error = Some err\<rparr>)\<rparr>"

definition getDownloadStatus :: "data_manager \<Rightarrow> string \<Rightarrow> string" where
  "getDownloadStatus dm i =
     (if i \<in> downloadedInvoices dm then ''downloaded''
      else (case downloadStatus dm i of
              None \<Rightarrow> ''pending''
            | Some e \<Rightarrow>
                if entry_status e = ''failed'' \<and> entry_attempts e \<ge> RETRY_ATTEMPTS
                then ''failed'' else ''pending''))"

definition clearDownloadHistory :: "data_manager \<Rightarrow> data_manager" where
  "clearDownloadHistory dm = dm\<lparr>downloadedInvoices := {}, downloadStatus := Map.empty\<rparr>"

text \<open>
  A call of one of the three mutating methods of the status store, and a sequence of
  such calls applied from left to right.
\<close>

datatype status_op =
  RecordSuccess string nat
  | RecordFailure string string nat
  | Clear

fun apply_status_op :: "data_manager \<Rightarrow> status_op \<Rightarrow> data_manager" where
  "apply_status_op dm (RecordSuccess i now) = markAsDownloaded dm i now"
| "apply_status_op dm (RecordFailure i err now) = markAsFailed dm i err now"
| "apply_status_op dm Clear = clearDownloadHistory dm"

definition apply_status_ops :: "data_manager \<Rightarrow> status_op list \<Rightarrow> data_manager" where
  "apply_status_ops dm ops = foldl apply_status_op dm ops"

text \<open>
  The bookkeeping used to state what a sequence of calls has recorded for one invoice.
\<close>

fun is_failure_of :: "string \<Rightarrow> status_op \<Rightarrow> bool" where
  "is_failure_of i (RecordFailure j err now) = (i = j)"
| "is_failure_of i _ = False"

fun is_success_of :: "string \<Rightarrow> status_op \<Rightarrow> bool" where
  "is_success_of i (RecordSuccess j now) = (i = j)"
| "is_success_of i _ = False"

definition failures_of :: "string \<Rightarrow> status_op list \<Rightarrow> nat" where
  "failures_of i ops = length (filter (is_failure_of i) ops)"

definition has_success_of :: "string \<Rightarrow> status_op list \<Rightarrow> bool" where
  "has_success_of i ops = list_ex (is_success_of i) ops"

section \<open>Row parser\<close>

subsection \<open>Strings and patterns\<close>

text \<open>
  The character classes of the regular expressions, on ASCII: \<^verbatim>\<open>\s\<close> (which is also
  what \<^verbatim>\<open>trim\<close> strips: TAB, LF, VT, FF, CR and space), \<^verbatim>\<open>\d\<close>, \<^verbatim>\<open>[A-Z]\<close> and
  \<^verbatim>\<open>\w\<close>.
\<close>

definition is_space :: "char \<Rightarrow> bool" where
  "is_space c \<longleftrightarrow> c \<in> {CHR 0x09, CHR 0x0A, CHR 0x0B, CHR 0x0C, CHR 0x0D, CHR '' ''}"

definition is_digit :: "char \<Rightarrow> bool" where
  "is_digit c \<longleftrightarrow> CHR ''0'' \<le> c \<and> c \<le> CHR ''9''"

definition is_upper :: "char \<Rightarrow> bool" where
  "is_upper c \<longleftrightarrow> CHR ''A'' \<le> c \<and> c \<le> CHR ''Z''"

definition is_lower :: "char \<Rightarrow> bool" where
  "is_lower c \<longleftrightarrow> CHR ''a'' \<le> c \<and> c \<le> CHR ''z''"

definition is_word :: "char \<Rightarrow> bool" where
  "is_word c \<longleftrightarrow> is_upper c \<or> is_lower c \<or> is_digit c \<or> c = CHR ''_''"

definition trim :: "string \<Rightarrow> string" where
  "trim s = rev (dropWhile is_space (rev (dropWhile is_space s)))"

definition lower_char :: "char \<Rightarrow> char" where
  "lower_char c =
     (case map_of (zip ''ABCDEFGHIJKLMNOPQRSTUVWXYZ'' ''abcdefghijklmnopqrstuvwxyz'') c of
        None \<Rightarrow> c
      | Some l \<Rightarrow> l)"

definition toLowerCase :: "string \<Rightarrow> string" where
  "toLowerCase s = map lower_char s"

definition startsWith :: "string \<Rightarrow> string \<Rightarrow> bool" where
  "startsWith s p \<longleftrightarrow> take (length p) s = p"

fun string_includes :: "string \<Rightarrow> string \<Rightarrow> bool" where
  "string_includes [] p = (p = [])"
| "string_includes (c # s) p = (startsWith (c # s) p \<or> string_includes s p)"

text \<open>
  \<^verbatim>\<open>s.replace(p, r)\<close> with a string pattern replaces the first occurrence of \<open>p\<close>.
\<close>

fun replace :: "string \<Rightarrow> string \<Rightarrow> string \<Rightarrow> string" where
  "replace [] p r = (if p = [] then r else [])"
| "replace (c # s) p r =
     (if startsWith (c # s) p then r @ drop (length p) (c # s) else c # replace s p r)"

text \<open>
  \<^verbatim>\<open>/^[A-Z]{2}-[A-Z]+-\d+-\d+$/\<close>. The classes \<^verbatim>\<open>[A-Z]\<close> and \<^verbatim>\<open>\d\<close> do not contain
  the hyphen, so each \<^verbatim>\<open>+\<close> can only match the whole run of its class.
\<close>

definition matches_invoice_pattern :: "string \<Rightarrow> bool" where
  "matches_invoice_pattern s \<longleftrightarrow>
     (let prefix2 = take 2 s; r0 = drop 2 s;
          r1 = drop 1 r0;
          seg = takeWhile is_upper r1; r2 = dropWhile is_upper r1;
          r3 = drop 1 r2;
          n1 = takeWhile is_digit r3; r4 = dropWhile is_digit r3;
          n2 = drop 1 r4
      in length prefix2 = 2 \<and> list_all is_upper prefix2
         \<and> take 1 r0 = ''-'' \<and> seg \<noteq> [] \<and> take 1 r2 = ''-''
         \<and> n1 \<noteq> [] \<and> take 1 r4 = ''-'' \<and> n2 \<noteq> [] \<and> list_all is_digit n2)"

text \<open>\<^verbatim>\<open>/^\w{3}\s\w{3}\s\d{2}/\<close>: a condition on the first ten characters.\<close>

definition matches_date_pattern :: "string \<Rightarrow> bool" where
  "matches_date_pattern s \<longleftrightarrow>
     10 \<le> length s
     \<and> list_all is_word (take 3 s) \<and> is_space (s ! 3)
     \<and> list_all is_word (take 3 (drop 4 s)) \<and> is_space (s ! 7)
     \<and> is_digit (s ! 8) \<and> is_digit (s ! 9)"

subsection \<open>The host's date functions\<close>

text \<open>
  \<^verbatim>\<open>new Date(text)\<close> on a string that is not in the ISO format is parsed by rules that
  ECMAScript leaves to the implementation, so the parser is a parameter of the model:
  \<open>Date_parse\<close> returns the time value, \<open>None\<close> standing for \<^verbatim>\<open>NaN\<close> (an invalid
  date). \<^verbatim>\<open>toISOString\<close> is fixed by the standard: it throws a \<^verbatim>\<open>RangeError\<close> on an
  invalid date and formats a valid time value, which is the parameter \<open>toISOString\<close>.
\<close>

record host =
  Date_parse :: "string \<Rightarrow> int option"
  toISOString :: "int \<Rightarrow> string"

datatype js_error = RangeError

text \<open>\<^verbatim>\<open>new Date(text).toISOString().split('T')[0]\<close>.\<close>

definition iso_date_of :: "host \<Rightarrow> string \<Rightarrow> js_error + string" where
  "iso_date_of h text =
     (case Date_parse h text of
        None \<Rightarrow> Inl RangeError
      | Some tv \<Rightarrow> Inr (takeWhile (\<lambda>c. c \<noteq> CHR ''T'') (toISOString h tv)))"

subsection \<open>The DOM the parser reads\<close>

text \<open>
  A table row as the parser sees it: the \<^verbatim>\<open>textContent\<close> of each \<^verbatim>\<open>td\<close>, the
  \<^verbatim>\<open>textContent\<close> of the row, and the element found by
  \<^verbatim>\<open>querySelector('button[id*="view_invoice_button"]')\<close>, if any, with its \<^verbatim>\<open>value\<close>
  and its attributes.
\<close>

record button_element =
  button_value :: string
  button_attrs :: "string \<rightharpoonup> string"

record row_element =
  cells :: "string list"
  row_textContent :: string
  viewButton :: "button_element option"

definition getAttribute :: "button_element \<Rightarrow> string \<Rightarrow> jsval" where
  "getAttribute b name = (case button_attrs b name of None \<Rightarrow> Null | Some v \<Rightarrow> Str v)"

subsection \<open>Extraction\<close>

text \<open>The object \<^verbatim>\<open>{}\<close>: reading any property gives \<^verbatim>\<open>undefined\<close>.\<close>

definition empty_object :: button_data where
  "empty_object =
     \<lparr>btn_endDate = Undefined, btn_fileType = Undefined, btn_filterName = Undefined,
      btn_invoice = Undefined, btn_payeeRegistrationNumber = Undefined,
      btn_rarId = Undefined, btn_shedDocumentName = Undefined\<rparr>"

definition extractButtonData :: "button_element option \<Rightarrow> button_data" where
  "extractButtonData button =
     (case button of
        None \<Rightarrow> empty_object
      | Some b \<Rightarrow>
          \<lparr>btn_endDate = getAttribute b ''data-enddate'',
           btn_fileType = getAttribute b ''data-filetype'',
           btn_filterName = getAttribute b ''data-filtername'',
           btn_invoice = getAttribute b ''data-invoice'',
           btn_payeeRegistrationNumber = getAttribute b ''data-payeeregistrationnumber'',
           btn_rarId = getAttribute b ''data-rarid'',
           btn_shedDocumentName = getAttribute b ''data-sheddocumentname''\<rparr>)"

fun extractInvoiceId :: "string list \<Rightarrow> string" where
  "extractInvoiceId [] = ''''"
| "extractInvoiceId (cell # rest) =
     (let text = trim cell
      in if matches_invoice_pattern text then text else extractInvoiceId rest)"

text \<open>The loop of \<^verbatim>\<open>extractDate\<close>, with the counter \<^verbatim>\<open>dateCount\<close> as an argument.\<close>

fun extractDate_from :: "host \<Rightarrow> string list \<Rightarrow> nat \<Rightarrow> nat \<Rightarrow> js_error + string" where
  "extractDate_from h [] occurrence dateCount = Inr ''''"
| "extractDate_from h (cell # rest) occurrence dateCount =
     (let text = trim cell
      in if matches_date_pattern text
         then (if dateCount = occurrence then iso_date_of h text
               else extractDate_from h rest occurrence (dateCount + 1))
         else extractDate_from h rest occurrence dateCount)"

definition extractDate :: "host \<Rightarrow> string list \<Rightarrow> nat \<Rightarrow> js_error + string" where
  "extractDate h cs occurrence = extractDate_from h cs occurrence 0"

fun extractMarketplace :: "string list \<Rightarrow> string" where
  "extractMarketplace [] = ''unknown''"
| "extractMarketplace (cell # rest) =
     (let text = trim cell
      in if startsWith text ''Amazon.'' then toLowerCase (replace text ''Amazon.'' '''')
         else extractMarketplace rest)"

text \<open>
  \<^verbatim>\<open>extractStartDate\<close> and \<^verbatim>\<open>extractEndDate\<close> of \<^verbatim>\<open>content.js\<close>; the second counts
  before it compares.
\<close>

fun extractStartDate :: "host \<Rightarrow> string list \<Rightarrow> js_error + string" where
  "extractStartDate h [] = Inr ''''"
| "extractStartDate h (cell # rest) =
     (let text = trim cell
      in if matches_date_pattern text then iso_date_of h text else extractStartDate h rest)"

fun extractEndDate_from :: "host \<Rightarrow> string list \<Rightarrow> nat \<Rightarrow> js_error + string" where
  "extractEndDate_from h [] dateCount = Inr ''''"
| "extractEndDate_from h (cell # rest) dateCount =
     (let text = trim cell
      in if matches_date_pattern text
         then (if dateCount + 1 = 2 then iso_date_of h text
               else extractEndDate_from h rest (dateCount + 1))
         else extractEndDate_from h rest dateCount)"

definition extractEndDate :: "host \<Rightarrow> string list \<Rightarrow> js_error + string" where
  "extractEndDate h cs = extractEndDate_from h cs 0"

text \<open>
  \<^verbatim>\<open>parseRowData\<close>: a cached record is returned as it is; otherwise the properties of
  the object literal are evaluated in order, and an exception of \<^verbatim>\<open>extractDate\<close>
  leaves the method before the cache is written.
\<close>

definition parseRowData ::
  "host \<Rightarrow> data_manager \<Rightarrow> row_element \<Rightarrow> nat \<Rightarrow> js_error + (data_manager \<times> row_data)" where
  "parseRowData h dm row idx =
     (case rowDataCache dm idx of
        Some d \<Rightarrow> Inr (dm, d)
      | None \<Rightarrow>
          (case extractDate h (cells row) 0 of
             Inl e \<Rightarrow> Inl e
           | Inr sd \<Rightarrow>
               (case extractDate h (cells row) 1 of
                  Inl e \<Rightarrow> Inl e
                | Inr ed \<Rightarrow>
                    (let d = \<lparr>index = idx,
                              invoiceId = extractInvoiceId (cells row),
                              startDate = sd,
                              endDate = ed,
                              marketplace = extractMarketplace (cells row),
                              textContent = toLowerCase (row_textContent row),
                              documentVersionId =
                                (case viewButton row of None \<Rightarrow> '''' | Some b \<Rightarrow> button_value b),
                              buttonData = extractButtonData (viewButton row),
                              isVisible = True,
                              isSelected = False\<rparr>
                     in Inr (dm\<lparr>rowDataCache := (rowDataCache dm)(idx \<mapsto> d)\<rparr>, d)))))"

section \<open>Filter engine\<close>

text \<open>
  The object \<^verbatim>\<open>currentFilters\<close> of \<^verbatim>\<open>FilterManager\<close>: four string properties, always
  created in this order and only ever assigned strings read from the form controls.
\<close>

record filters =
  filter_marketplace :: string
  filter_dateFrom :: string
  filter_dateTo :: string
  filter_status :: string

subsection \<open>The cache key\<close>

text \<open>
  \<^verbatim>\<open>JSON.stringify\<close> on an object whose properties are strings: the properties in
  creation order, every string quoted, with the quotation mark, the backslash and the
  control characters escaped.
\<close>

definition hex_digit :: "nat \<Rightarrow> char" where
  "hex_digit n = ''0123456789abcdef'' ! (n mod 16)"

definition json_escape :: "char \<Rightarrow> string" where
  "json_escape c =
     (if c = CHR 0x22 then [CHR 0x5C, CHR 0x22]
      else if c = CHR 0x5C then [CHR 0x5C, CHR 0x5C]
      else if c = CHR 0x08 then [CHR 0x5C, CHR ''b'']
      else if c = CHR 0x09 then [CHR 0x5C, CHR ''t'']
      else if c = CHR 0x0A then [CHR 0x5C, CHR ''n'']
      else if c = CHR 0x0C then [CHR 0x5C, CHR ''f'']
      else if c = CHR 0x0D then [CHR 0x5C, CHR ''r'']
      else if of_char c < (32::nat)
        then [CHR 0x5C, CHR ''u'', CHR ''0'', CHR ''0'',
              hex_digit (of_char c div 16), hex_digit (of_char c)]
      else [c])"

definition json_quote :: "string \<Rightarrow> string" where
  "json_quote s = [CHR 0x22] @ concat (map json_escape s) @ [CHR 0x22]"

definition JSON_stringify :: "filters \<Rightarrow> string" where
  "JSON_stringify f =
     ''{'' @ json_quote ''marketplace'' @ '':'' @ json_quote (filter_marketplace f)
     @ '','' @ json_quote ''dateFrom'' @ '':'' @ json_quote (filter_dateFrom f)
     @ '','' @ json_quote ''dateTo'' @ '':'' @ json_quote (filter_dateTo f)
     @ '','' @ json_quote ''status'' @ '':'' @ json_quote (filter_status f) @ ''}''"

subsection \<open>The operations of a JavaScript Map\<close>

text \<open>
  On the association list that keeps the insertion order: \<^verbatim>\<open>set\<close> on a key that is
  present replaces the value where it stands, and appends a new key at the end;
  \<^verbatim>\<open>keys().next().value\<close> is the key inserted first, and \<^verbatim>\<open>undefined\<close> on an empty
  map, which \<^verbatim>\<open>delete\<close> does not find.
\<close>

definition Map_has :: "('k \<times> 'v) list \<Rightarrow> 'k \<Rightarrow> bool" where
  "Map_has m k \<longleftrightarrow> map_of m k \<noteq> None"

definition Map_get :: "('k \<times> 'v) list \<Rightarrow> 'k \<Rightarrow> 'v option" where
  "Map_get m k = map_of m k"

definition Map_size :: "('k \<times> 'v) list \<Rightarrow> nat" where
  "Map_size m = length m"

definition Map_set :: "('k \<times> 'v) list \<Rightarrow> 'k \<Rightarrow> 'v \<Rightarrow> ('k \<times> 'v) list" where
  "Map_set m k v = AList.update k v m"

definition Map_delete :: "('k \<times> 'v) list \<Rightarrow> 'k \<Rightarrow> ('k \<times> 'v) list" where
  "Map_delete m k = AList.delete k m"

definition Map_delete_first_key :: "('k \<times> 'v) list \<Rightarrow> ('k \<times> 'v) list" where
  "Map_delete_first_key m = (case m of [] \<Rightarrow> [] | (firstKey, v) # rest \<Rightarrow> Map_delete m firstKey)"

subsection \<open>Filtering\<close>

text \<open>The callback given to \<^verbatim>\<open>allRows.filter\<close>, with its four early returns in order.\<close>

definition passesFilters :: "data_manager \<Rightarrow> filters \<Rightarrow> row_data \<Rightarrow> bool" where
  "passesFilters dm f d =
     (if filter_marketplace f \<noteq> []
         \<and> \<not> string_includes (textContent d) (toLowerCase (filter_marketplace f))
      then False
      else if filter_dateFrom f \<noteq> [] \<and> endDate d \<noteq> [] \<and> endDate d < filter_dateFrom f
      then False
      else if filter_dateTo f \<noteq> [] \<and> startDate d \<noteq> [] \<and> startDate d > filter_dateTo f
      then False
      else if filter_status f \<noteq> [] \<and> filter_status f \<noteq> getDownloadStatus dm (invoiceId d)
      then False
      else True)"

text \<open>
  \<^verbatim>\<open>applyFilters\<close> returns the array it leaves in \<^verbatim>\<open>filteredRows\<close>. On a miss the
  array made by \<^verbatim>\<open>filter\<close> is a new object, allocated behind the existing ones. On a
  hit \<^verbatim>\<open>get\<close> finds what \<^verbatim>\<open>has\<close> found, so the branch for a missing value is never
  taken.
\<close>

definition applyFilters :: "data_manager \<Rightarrow> filters \<Rightarrow> data_manager \<times> nat" where
  "applyFilters dm f =
     (let cacheKey = JSON_stringify f
      in if Map_has (filterCache dm) cacheKey
         then (case Map_get (filterCache dm) cacheKey of
                 Some a \<Rightarrow> (dm\<lparr>filteredRows := a\<rparr>, a)
               | None \<Rightarrow> (dm, filteredRows dm))
         else
           (let a = length (arrays dm);
                dm1 = dm\<lparr>arrays := arrays dm @ [filter (passesFilters dm f) (allRows dm)],
                         filteredRows := a\<rparr>;
                dm2 = (if Map_size (filterCache dm1) > 50
                       then dm1\<lparr>filterCache := Map_delete_first_key (filterCache dm1)\<rparr>
                       else dm1);
                dm3 = dm2\<lparr>filterCache := Map_set (filterCache dm2) cacheKey a\<rparr>
            in (dm3, a)))"

text \<open>A sequence of calls of \<^verbatim>\<open>applyFilters\<close>, as the filter manager issues them.\<close>

definition applyFilters_all :: "data_manager \<Rightarrow> filters list \<Rightarrow> data_manager" where
  "applyFilters_all dm fs = foldl (\<lambda>d f. fst (applyFilters d f)) dm fs"

section \<open>Download orchestrator\<close>

text \<open>
  What the environment decides while one item of the queue is handled: whether the
  promise of the retrieval resolves or rejects (with \<^verbatim>\<open>error.message\<close>), whether the
  user presses Cancel while the retrieval is awaited, whether the user presses Cancel
  during the delay that follows, and the value of \<^verbatim>\<open>Date.now()\<close> when the status is
  written.
\<close>

datatype fetch_outcome = Resolved | Rejected string

record attempt =
  fetch_result :: fetch_outcome
  cancel_in_flight :: bool
  cancel_in_delay :: bool
  time_now :: nat

text \<open>
  The fields of \<^verbatim>\<open>InvoiceDownloader\<close>. The queue is the array made by \<^verbatim>\<open>filter\<close> in
  \<^verbatim>\<open>startDirectDownload\<close>; the loop only reads it.
\<close>

record invoice_downloader =
  dataManager :: data_manager
  isDownloading :: bool
  downloadQueue :: "row_data list"
  currentDownloadIndex :: nat

definition truthy :: "jsval \<Rightarrow> bool" where
  "truthy v = (case v of Undefined \<Rightarrow> False | Null \<Rightarrow> False | Str s \<Rightarrow> s \<noteq> [])"

text \<open>
  \<^verbatim>\<open>downloadPdfDirect\<close>: the guard at its head throws before any request is made; what
  follows is the retrieval, whose outcome the environment gives.
\<close>

definition downloadPdfDirect :: "row_data \<Rightarrow> attempt \<Rightarrow> fetch_outcome" where
  "downloadPdfDirect invoiceData a =
     (if documentVersionId invoiceData = [] \<and> \<not> truthy (btn_rarId (buttonData invoiceData))
      then Rejected ''No document version ID or rarId found''
      else fetch_result a)"

definition cancelDownload :: "invoice_downloader \<Rightarrow> invoice_downloader" where
  "cancelDownload dl = dl\<lparr>isDownloading := False\<rparr>"

text \<open>
  One pass through the body of the \<^verbatim>\<open>for\<close> loop of \<^verbatim>\<open>startDirectDownload\<close>, for the
  index \<open>i\<close>, with the two counters.
\<close>

definition download_item ::
  "(nat \<Rightarrow> attempt) \<Rightarrow> invoice_downloader \<Rightarrow> nat \<Rightarrow> nat \<Rightarrow> nat
     \<Rightarrow> invoice_downloader \<times> nat \<times> nat" where
  "download_item env dl i successCount failureCount =
     (let dl1 = dl\<lparr>currentDownloadIndex := i\<rparr>;
          invoiceData = downloadQueue dl1 ! i;
          a = env i;
          dl2 = (if cancel_in_flight a then cancelDownload dl1 else dl1);
          (dl3, sc, fc) =
            (case downloadPdfDirect invoiceData a of
               Resolved \<Rightarrow>
                 (dl2\<lparr>dataManager :=
                        markAsDownloaded (dataManager dl2) (invoiceId invoiceData) (time_now a)\<rparr>,
                  successCount + 1, failureCount)
             | Rejected message \<Rightarrow>
                 (dl2\<lparr>dataManager :=
                        markAsFailed (dataManager dl2) (invoiceId invoiceData) message (time_now a)\<rparr>,
                  successCount, failureCount + 1));
          dl4 = (if i < length (downloadQueue dl3) - 1 \<and> isDownloading dl3
                 then (if cancel_in_delay a then cancelDownload dl3 else dl3)
                 else dl3)
      in (dl4, sc, fc))"

function download_loop ::
  "(nat \<Rightarrow> attempt) \<Rightarrow> invoice_downloader \<Rightarrow> nat \<Rightarrow> nat \<Rightarrow> nat
     \<Rightarrow> invoice_downloader \<times> nat \<times> nat" where
  "download_loop env dl i successCount failureCount =
     (if i < length (downloadQueue dl) \<and> isDownloading dl
      then (case download_item env dl i successCount failureCount of
              (dl', sc, fc) \<Rightarrow> download_loop env dl' (i + 1) sc fc)
      else (dl, successCount, failureCount))"
  by pat_completeness auto
termination
proof (relation "measure (\<lambda>(env, dl, i, sc, fc). length (downloadQueue dl) - i)", goal_cases)
  case 1
  show ?case by simp
next
  case 2
  then show ?case
    by (auto simp: download_item_def cancelDownload_def Let_def
          split: fetch_outcome.splits if_splits)
qed

declare download_loop.simps [simp del]

text \<open>
  \<^verbatim>\<open>startDirectDownload\<close>. A call while a run is in progress returns at once, and so
  does a call with nothing to download; both leave the object as it is. Otherwise the
  result carries the two counts of the completion message. A run is taken from the call
  to its return, with Cancel as the only thing the user does meanwhile.
\<close>

definition selectedRows :: "data_manager \<Rightarrow> row_data list" where
  "selectedRows dm =
     filter (\<lambda>d. isSelected d
                \<and> (getDownloadStatus dm (invoiceId d) = ''pending''
                    \<or> getDownloadStatus dm (invoiceId d) = ''failed''))
       (arrays dm ! filteredRows dm)"

definition startDirectDownload ::
  "(nat \<Rightarrow> attempt) \<Rightarrow> invoice_downloader \<Rightarrow> invoice_downloader \<times> (nat \<times> nat) option" where
  "startDirectDownload env dl =
     (if isDownloading dl then (dl, None)
      else if selectedRows (dataManager dl) = [] then (dl, None)
      else
        (let dl1 = dl\<lparr>isDownloading := True,
                       downloadQueue := selectedRows (dataManager dl),
                       currentDownloadIndex := 0\<rparr>
         in (case download_loop env dl1 0 0 0 of
               (dl2, sc, fc) \<Rightarrow> (dl2\<lparr>isDownloading := False\<rparr>, Some (sc, fc)))))"

section \<open>Auxiliary definitions for the properties\<close>

text \<open>
  The definitions of this section are not part of the program; the properties are
  stated with them.

  The number of items a run handles: all of them, or those up to and including the
  first one during or after which Cancel is pressed. The delay follows every item but
  the last, so a Cancel during the delay belongs to an item that has a successor.
  \<open>stop_index env n i\<close> is the index at which a loop that is at \<open>i\<close> ends.
\<close>

definition cancelled_at :: "(nat \<Rightarrow> attempt) \<Rightarrow> nat \<Rightarrow> nat \<Rightarrow> bool" where
  "cancelled_at env n i \<longleftrightarrow>
     cancel_in_flight (env i) \<or> (i < n - 1 \<and> cancel_in_delay (env i))"

definition stop_index :: "(nat \<Rightarrow> attempt) \<Rightarrow> nat \<Rightarrow> nat \<Rightarrow> nat" where
  "stop_index env n i =
     (case find (cancelled_at env n) [i..<n] of None \<Rightarrow> n | Some j \<Rightarrow> j + 1)"

definition processed_count :: "(nat \<Rightarrow> attempt) \<Rightarrow> nat \<Rightarrow> nat" where
  "processed_count env n = stop_index env n 0"

text \<open>The one call of the status store that the loop makes for the item at \<open>i\<close>.\<close>

definition status_update :: "(nat \<Rightarrow> attempt) \<Rightarrow> row_data list \<Rightarrow> nat \<Rightarrow> status_op" where
  "status_update env queue i =
     (case downloadPdfDirect (queue ! i) (env i) of
        Resolved \<Rightarrow> RecordSuccess (invoiceId (queue ! i)) (time_now (env i))
      | Rejected message \<Rightarrow> RecordFailure (invoiceId (queue ! i)) message (time_now (env i)))"

text \<open>
  The state reached from a store that knows nothing about the invoice \<open>i\<close>, by calls
  without \<^verbatim>\<open>clearDownloadHistory\<close>: \<open>i\<close> is in \<^verbatim>\<open>downloadedInvoices\<close> exactly when one
  of the calls was a success for \<open>i\<close>, and without such a call the entry of \<open>i\<close> counts
  the failures of \<open>i\<close>.
\<close>

definition tracks :: "data_manager \<Rightarrow> string \<Rightarrow> status_op list \<Rightarrow> bool" where
  "tracks dm i ops \<longleftrightarrow>
     (i \<in> downloadedInvoices dm \<longleftrightarrow> has_success_of i ops) \<and>
     (\<not> has_success_of i ops \<longrightarrow>
        (if failures_of i ops = 0 then downloadStatus dm i = None
         else \<exists>e. downloadStatus dm i = Some e \<and> entry_status e = ''failed''
                \<and> entry_attempts e = failures_of i ops))"

text \<open>
  Rows for the concrete instances: a parsed row with the given position and invoice id,
  selected, with a document to download.
\<close>

definition sample_row :: "nat \<Rightarrow> string \<Rightarrow> row_data" where
  "sample_row idx ident =
     \<lparr>index = idx, invoiceId = ident, startDate = ''2025-01-01'', endDate = ''2025-01-31'',
      marketplace = ''de'', textContent = ''amazon.de 2025'', documentVersionId = ''v1'',
      buttonData = empty_object, isVisible = True, isSelected = True\<rparr>"

text \<open>
  Filter specifications that differ in the marketplace text, as typing one more
  character into the marketplace box produces them.
\<close>

definition spec_no :: "nat \<Rightarrow> filters" where
  "spec_no k =
     \<lparr>filter_marketplace = replicate k CHR ''a'', filter_dateFrom = '''',
      filter_dateTo = '''', filter_status = ''''\<rparr>"

text \<open>A filter on the status alone, and a filter on the dates alone.\<close>

definition status_spec :: "string \<Rightarrow> filters" where
  "status_spec s =
     \<lparr>filter_marketplace = '''', filter_dateFrom = '''', filter_dateTo = '''',
      filter_status = s\<rparr>"

definition date_spec :: "string \<Rightarrow> string \<Rightarrow> filters" where
  "date_spec from to =
     \<lparr>filter_marketplace = '''', filter_dateFrom = from, filter_dateTo = to,
      filter_status = ''''\<rparr>"

text \<open>A data manager whose table has one row, with nothing downloaded yet.\<close>

definition one_row_manager :: data_manager where
  "one_row_manager =
     new_InvoiceDataManager\<lparr>allRows := [sample_row 0 ''GB-AEU-2025-0001'']\<rparr>"

text \<open>A row on which no cell matched the date pattern.\<close>

definition undated_row :: row_data where
  "undated_row = (sample_row 1 ''PL-AEU-2025-0002'')\<lparr>startDate := '''', endDate := ''''\<rparr>"

text \<open>
  The downloader after \<^verbatim>\<open>init\<close> on a table with the given parsed rows, all shown:
  \<^verbatim>\<open>filteredRows\<close> is the copy of \<^verbatim>\<open>allRows\<close> made by \<^verbatim>\<open>initializeData\<close>.
\<close>

definition idle_downloader :: "row_data list \<Rightarrow> invoice_downloader" where
  "idle_downloader rows =
     \<lparr>dataManager =
        new_InvoiceDataManager\<lparr>allRows := rows, arrays := [[], rows], filteredRows := 1,
                               isInitialized := True\<rparr>,
      isDownloading = False, downloadQueue = [], currentDownloadIndex = 0\<rparr>"

definition three_rows :: "row_data list" where
  "three_rows =
     [sample_row 0 ''GB-AEU-2025-0001'', sample_row 1 ''GB-AEU-2025-0002'',
      sample_row 2 ''GB-AEU-2025-0003'']"

text \<open>Two rows on which no cell matched the invoice pattern.\<close>

definition two_unmatched_rows :: "row_data list" where
  "two_unmatched_rows = [sample_row 0 '''', sample_row 1 '''']"

text \<open>
  Three environments: every retrieval succeeds and Cancel is pressed during the delay
  after the first item; the second retrieval fails and Cancel is pressed during the
  delay after it; the second retrieval fails and Cancel is never pressed.
\<close>

definition cancel_after_first :: "nat \<Rightarrow> attempt" where
  "cancel_after_first i =
     \<lparr>fetch_result = Resolved, cancel_in_flight = False, cancel_in_delay = (i = 0),
      time_now = 1000 + i\<rparr>"

definition second_fails_then_cancel :: "nat \<Rightarrow> attempt" where
  "second_fails_then_cancel i =
     \<lparr>fetch_result = (if i = 1 then Rejected ''Failed to fetch'' else Resolved),
      cancel_in_flight = False, cancel_in_delay = (i = 1), time_now = 1000 + i\<rparr>"

definition second_fails :: "nat \<Rightarrow> attempt" where
  "second_fails i =
     \<lparr>fetch_result = (if i = 1 then Rejected ''Failed to fetch'' else Resolved),
      cancel_in_flight = False, cancel_in_delay = False, time_now = 1000 + i\<rparr>"

text \<open>A view button that carries a value and none of the data attributes.\<close>

definition bare_button :: button_element where
  "bare_button = \<lparr>button_value = ''v1'', button_attrs = Map.empty\<rparr>"

text \<open>
  A host whose date parser accepts one string and returns \<^verbatim>\<open>NaN\<close> for every other; the
  string of the failing cell is one that the parsers of the browsers reject, since a
  word follows the digits.
\<close>

definition sample_host :: host where
  "sample_host =
     \<lparr>Date_parse = (\<lambda>s. if s = ''Mon Jan 01 2024'' then Some 1704067200000 else None),
      toISOString = (\<lambda>tv. ''2024-01-01T00:00:00.000Z'')\<rparr>"

definition failing_row :: row_element where
  "failing_row =
     \<lparr>cells = [''GB-AEU-2025-0001'', ''Amazon.de'', ''The Big 12 pack''],
      row_textContent = ''GB-AEU-2025-0001 Amazon.de The Big 12 pack'',
      viewButton = Some bare_button\<rparr>"

section \<open>Properties of the status store\<close>

lemma apply_status_ops_snoc:
  "apply_status_ops dm (ops @ [x]) = apply_status_op (apply_status_ops dm ops) x"
  by (simp add: apply_status_ops_def)

lemma apply_status_ops_append:
  "apply_status_ops dm (xs @ ys) = apply_status_ops (apply_status_ops dm xs) ys"
  by (simp add: apply_status_ops_def)

lemma apply_status_ops_Cons:
  "apply_status_ops dm (x # xs) = apply_status_ops (apply_status_op dm x) xs"
  by (simp add: apply_status_ops_def)

lemma downloaded_kept_by_op:
  "x \<noteq> Clear \<Longrightarrow> i \<in> downloadedInvoices dm \<Longrightarrow> i \<in> downloadedInvoices (apply_status_op dm x)"
  by (cases x) (simp_all add: markAsDownloaded_def markAsFailed_def)

lemma downloaded_kept_by_ops:
  "Clear \<notin> set ops \<Longrightarrow> i \<in> downloadedInvoices dm
    \<Longrightarrow> i \<in> downloadedInvoices (apply_status_ops dm ops)"
proof (induction ops arbitrary: dm)
  case Nil
  then show ?case by (simp add: apply_status_ops_def)
next
  case (Cons x xs)
  from Cons.prems have "x \<noteq> Clear" and "Clear \<notin> set xs" by auto
  with Cons.prems(2) Cons.IH [of "apply_status_op dm x"] show ?case
    by (simp add: apply_status_ops_Cons downloaded_kept_by_op)
qed

lemma getDownloadStatus_downloaded:
  "i \<in> downloadedInvoices dm \<Longrightarrow> getDownloadStatus dm i = ''downloaded''"
  by (simp add: getDownloadStatus_def)

text \<open>
  Claim C3. Once \<^verbatim>\<open>markAsDownloaded\<close> has been called for an invoice, whatever calls
  came before it, \<^verbatim>\<open>getDownloadStatus\<close> of that invoice is \<^verbatim>\<open>'downloaded'\<close> after
  every later sequence of calls of \<^verbatim>\<open>markAsDownloaded\<close> and \<^verbatim>\<open>markAsFailed\<close>, for
  any invoices, that contains no \<^verbatim>\<open>clearDownloadHistory\<close>.
\<close>

theorem success_is_sticky:
  assumes "Clear \<notin> set later"
  shows "getDownloadStatus
           (apply_status_ops dm (earlier @ RecordSuccess i now # later)) i = ''downloaded''"
proof -
  have "i \<in> downloadedInvoices
           (apply_status_op (apply_status_ops dm earlier) (RecordSuccess i now))"
    by (simp add: markAsDownloaded_def)
  with assms
  have "i \<in> downloadedInvoices (apply_status_ops dm (earlier @ RecordSuccess i now # later))"
    by (simp add: apply_status_ops_append apply_status_ops_Cons downloaded_kept_by_ops)
  then show ?thesis by (rule getDownloadStatus_downloaded)
qed

theorem success_is_sticky_witness:
  "Clear \<notin> set [RecordFailure ''GB-AEU-2025-0001'' ''Download timeout'' 20,
                  RecordFailure ''GB-AEU-2025-0001'' ''Download timeout'' 30,
                  RecordFailure ''GB-AEU-2025-0001'' ''Download timeout'' 40]
   \<and> getDownloadStatus
        (apply_status_ops new_InvoiceDataManager
           ([RecordFailure ''GB-AEU-2025-0001'' ''HTTP 500: '' 5]
            @ RecordSuccess ''GB-AEU-2025-0001'' 10
            # [RecordFailure ''GB-AEU-2025-0001'' ''Download timeout'' 20,
               RecordFailure ''GB-AEU-2025-0001'' ''Download timeout'' 30,
               RecordFailure ''GB-AEU-2025-0001'' ''Download timeout'' 40]))
        ''GB-AEU-2025-0001'' = ''downloaded''"
  using success_is_sticky
    [of "[RecordFailure ''GB-AEU-2025-0001'' ''Download timeout'' 20,
          RecordFailure ''GB-AEU-2025-0001'' ''Download timeout'' 30,
          RecordFailure ''GB-AEU-2025-0001'' ''Download timeout'' 40]"
        new_InvoiceDataManager
        "[RecordFailure ''GB-AEU-2025-0001'' ''HTTP 500: '' 5]"
        "''GB-AEU-2025-0001''" 10]
  by simp

lemma tracks_step:
  assumes "tracks dm i ops" "x \<noteq> Clear"
  shows "tracks (apply_status_op dm x) i (ops @ [x])"
proof (cases x)
  case (RecordSuccess j now)
  with assms show ?thesis
    by (auto simp: tracks_def has_success_of_def failures_of_def markAsDownloaded_def)
next
  case (RecordFailure j err now)
  with assms show ?thesis
    by (auto simp: tracks_def has_success_of_def failures_of_def markAsFailed_def
          attempts_of_def split: if_splits)
next
  case Clear
  with assms show ?thesis by simp
qed

lemma tracks_ops:
  assumes "i \<notin> downloadedInvoices dm" "downloadStatus dm i = None" "Clear \<notin> set ops"
  shows "tracks (apply_status_ops dm ops) i ops"
  using assms(3)
proof (induction ops rule: rev_induct)
  case Nil
  with assms show ?case
    by (simp add: tracks_def has_success_of_def failures_of_def apply_status_ops_def)
next
  case (snoc x xs)
  then have "tracks (apply_status_ops dm xs) i xs" and "x \<noteq> Clear" by auto
  then show ?case by (simp add: apply_status_ops_snoc tracks_step)
qed

lemma status_after_ops:
  assumes "i \<notin> downloadedInvoices dm" "downloadStatus dm i = None" "Clear \<notin> set ops"
  shows "getDownloadStatus (apply_status_ops dm ops) i =
     (if has_success_of i ops then ''downloaded''
      else if RETRY_ATTEMPTS \<le> failures_of i ops then ''failed'' else ''pending'')"
  using tracks_ops [OF assms]
  by (auto simp: tracks_def getDownloadStatus_def RETRY_ATTEMPTS_def
        split: option.splits if_splits)

lemma status_without_success:
  assumes "i \<notin> downloadedInvoices dm"
  shows "getDownloadStatus dm i =
     (if \<exists>e. downloadStatus dm i = Some e \<and> entry_status e = ''failed''
              \<and> RETRY_ATTEMPTS \<le> entry_attempts e
      then ''failed'' else ''pending'')"
  using assms by (auto simp: getDownloadStatus_def split: option.splits)

text \<open>
  Claim C4. For an invoice that is not in \<^verbatim>\<open>downloadedInvoices\<close>,
  \<^verbatim>\<open>getDownloadStatus\<close> is \<^verbatim>\<open>'failed'\<close> exactly when the entry of the invoice has the
  status \<^verbatim>\<open>'failed'\<close> and at least \<^verbatim>\<open>RETRY_ATTEMPTS\<close> = 3 attempts, and \<^verbatim>\<open>'pending'\<close>
  otherwise. Counted in calls: from a store without an entry for the invoice, after
  calls that contain no success for it and no \<^verbatim>\<open>clearDownloadHistory\<close>, the status is
  \<^verbatim>\<open>'failed'\<close> when at least three of the calls were failures of the invoice, and
  \<^verbatim>\<open>'pending'\<close> with fewer.
\<close>

theorem retry_ceiling:
  assumes "i \<notin> downloadedInvoices dm"
  shows "RETRY_ATTEMPTS = 3
    \<and> (getDownloadStatus dm i = ''failed'' \<longleftrightarrow>
         (\<exists>e. downloadStatus dm i = Some e \<and> entry_status e = ''failed''
              \<and> RETRY_ATTEMPTS \<le> entry_attempts e))
    \<and> (getDownloadStatus dm i \<noteq> ''failed'' \<longrightarrow> getDownloadStatus dm i = ''pending'')
    \<and> (downloadStatus dm i = None \<and> Clear \<notin> set ops \<and> \<not> has_success_of i ops \<longrightarrow>
         getDownloadStatus (apply_status_ops dm ops) i =
           (if RETRY_ATTEMPTS \<le> failures_of i ops then ''failed'' else ''pending''))"
proof -
  have "getDownloadStatus (apply_status_ops dm ops) i =
          (if RETRY_ATTEMPTS \<le> failures_of i ops then ''failed'' else ''pending'')"
    if "downloadStatus dm i = None" "Clear \<notin> set ops" "\<not> has_success_of i ops"
    using status_after_ops [OF assms that(1,2)] that(3) by simp
  moreover have "getDownloadStatus dm i = ''failed'' \<longleftrightarrow>
         (\<exists>e. downloadStatus dm i = Some e \<and> entry_status e = ''failed''
              \<and> RETRY_ATTEMPTS \<le> entry_attempts e)"
    by (simp add: status_without_success [OF assms])
  moreover have "getDownloadStatus dm i \<noteq> ''failed'' \<longrightarrow> getDownloadStatus dm i = ''pending''"
    by (simp add: status_without_success [OF assms])
  ultimately show ?thesis
    by (simp add: RETRY_ATTEMPTS_def)
qed

theorem retry_ceiling_witness:
  "''PL-AEU-2025-0002'' \<notin> downloadedInvoices new_InvoiceDataManager
   \<and> downloadStatus new_InvoiceDataManager ''PL-AEU-2025-0002'' = None
   \<and> Clear \<notin> set [RecordFailure ''PL-AEU-2025-0002'' ''Download timeout'' 1,
                    RecordFailure ''PL-AEU-2025-0002'' ''Download timeout'' 2,
                    RecordFailure ''PL-AEU-2025-0002'' ''Empty PDF received'' 3]
   \<and> \<not> has_success_of ''PL-AEU-2025-0002''
          [RecordFailure ''PL-AEU-2025-0002'' ''Download timeout'' 1,
           RecordFailure ''PL-AEU-2025-0002'' ''Download timeout'' 2,
           RecordFailure ''PL-AEU-2025-0002'' ''Empty PDF received'' 3]
   \<and> getDownloadStatus
        (apply_status_ops new_InvoiceDataManager
           [RecordFailure ''PL-AEU-2025-0002'' ''Download timeout'' 1,
            RecordFailure ''PL-AEU-2025-0002'' ''Download timeout'' 2,
            RecordFailure ''PL-AEU-2025-0002'' ''Empty PDF received'' 3])
        ''PL-AEU-2025-0002'' = ''failed''
   \<and> getDownloadStatus new_InvoiceDataManager ''PL-AEU-2025-0002'' = ''pending''"
  using retry_ceiling
    [of "''PL-AEU-2025-0002''" new_InvoiceDataManager
        "[RecordFailure ''PL-AEU-2025-0002'' ''Download timeout'' 1,
          RecordFailure ''PL-AEU-2025-0002'' ''Download timeout'' 2,
          RecordFailure ''PL-AEU-2025-0002'' ''Empty PDF received'' 3]"]
  by (simp add: new_InvoiceDataManager_def has_success_of_def failures_of_def
        RETRY_ATTEMPTS_def)

text \<open>
  Claim C9, as the specification states it, fails: the status store has no case for the
  empty invoice id. After one \<^verbatim>\<open>markAsDownloaded('')\<close> on a new store,
  \<^verbatim>\<open>getDownloadStatus('')\<close> is \<^verbatim>\<open>'downloaded'\<close>, for every row whose invoice id is
  empty.
\<close>

theorem empty_invoiceId_not_always_pending:
  "getDownloadStatus (apply_status_ops new_InvoiceDataManager [RecordSuccess '''' 0]) ''''
     \<noteq> ''pending''"
  by (simp add: apply_status_ops_def markAsDownloaded_def getDownloadStatus_def
        new_InvoiceDataManager_def)

text \<open>
  Claim C9, amended. The empty invoice id is a key like any other, and the rows whose
  invoice id is empty share its entry: two such rows always have the same status. From
  a store that knows nothing about the empty id, after calls without
  \<^verbatim>\<open>clearDownloadHistory\<close>, that status is \<^verbatim>\<open>'downloaded'\<close> once a success has been
  recorded for the empty id, otherwise \<^verbatim>\<open>'failed'\<close> once three failures have been
  recorded for it, and \<^verbatim>\<open>'pending'\<close> only otherwise.
\<close>

theorem empty_invoiceId_shares_one_entry:
  assumes "'''' \<notin> downloadedInvoices dm" "downloadStatus dm '''' = None" "Clear \<notin> set ops"
    and "invoiceId r1 = ''''" "invoiceId r2 = ''''"
  shows "getDownloadStatus (apply_status_ops dm ops) (invoiceId r1) =
           getDownloadStatus (apply_status_ops dm ops) (invoiceId r2)
    \<and> getDownloadStatus (apply_status_ops dm ops) (invoiceId r1) =
         (if has_success_of '''' ops then ''downloaded''
          else if RETRY_ATTEMPTS \<le> failures_of '''' ops then ''failed'' else ''pending'')"
  using status_after_ops [OF assms(1-3)] assms(4,5) by simp

theorem empty_invoiceId_shares_one_entry_witness:
  "'''' \<notin> downloadedInvoices new_InvoiceDataManager
   \<and> downloadStatus new_InvoiceDataManager '''' = None
   \<and> Clear \<notin> set [RecordFailure '''' ''Download timeout'' 3, RecordSuccess '''' 7]
   \<and> invoiceId (sample_row 0 '''') = '''' \<and> invoiceId (sample_row 1 '''') = ''''
   \<and> getDownloadStatus
        (apply_status_ops new_InvoiceDataManager
           [RecordFailure '''' ''Download timeout'' 3, RecordSuccess '''' 7])
        (invoiceId (sample_row 1 '''')) = ''downloaded''"
  using empty_invoiceId_shares_one_entry
    [of new_InvoiceDataManager "[RecordFailure '''' ''Download timeout'' 3, RecordSuccess '''' 7]"
        "sample_row 0 ''''" "sample_row 1 ''''"]
  by (simp add: new_InvoiceDataManager_def sample_row_def has_success_of_def)

section \<open>Properties of the filter engine\<close>

subsection \<open>Cache hits\<close>

lemma applyFilters_hit:
  "Map_get (filterCache dm) (JSON_stringify f) = Some a
    \<Longrightarrow> applyFilters dm f = (dm\<lparr>filteredRows := a\<rparr>, a)"
  by (simp add: applyFilters_def Map_has_def Map_get_def)

lemma applyFilters_caches_result:
  "Map_get (filterCache (fst (applyFilters dm f))) (JSON_stringify f)
     = Some (snd (applyFilters dm f))"
  by (auto simp: applyFilters_def Map_has_def Map_get_def Map_set_def Let_def
        AList.update_conv' split: option.splits)

lemma applyFilters_sets_filteredRows:
  "filteredRows (fst (applyFilters dm f)) = snd (applyFilters dm f)"
  by (auto simp: applyFilters_def Map_has_def Map_get_def Let_def split: option.splits)

text \<open>
  Claim C7. A second \<^verbatim>\<open>applyFilters\<close> with the same filters, right after the first,
  finds its key in \<^verbatim>\<open>filterCache\<close> and returns the array object the first call
  returned; it leaves the whole object as the first call left it, so no array is
  allocated and hence none computed, and the array holds what it held.
\<close>

theorem reapply_same_filters:
  "Map_has (filterCache (fst (applyFilters dm f))) (JSON_stringify f)
   \<and> snd (applyFilters (fst (applyFilters dm f)) f) = snd (applyFilters dm f)
   \<and> fst (applyFilters (fst (applyFilters dm f)) f) = fst (applyFilters dm f)
   \<and> arrays (fst (applyFilters (fst (applyFilters dm f)) f))
        ! snd (applyFilters (fst (applyFilters dm f)) f)
      = arrays (fst (applyFilters dm f)) ! snd (applyFilters dm f)"
proof -
  let ?dm1 = "fst (applyFilters dm f)" and ?a = "snd (applyFilters dm f)"
  have cached: "Map_get (filterCache ?dm1) (JSON_stringify f) = Some ?a"
    by (rule applyFilters_caches_result)
  have "applyFilters ?dm1 f = (?dm1\<lparr>filteredRows := ?a\<rparr>, ?a)"
    using cached by (rule applyFilters_hit)
  moreover have "?dm1\<lparr>filteredRows := ?a\<rparr> = ?dm1"
    using applyFilters_sets_filteredRows [of dm f] by simp
  ultimately have "applyFilters ?dm1 f = (?dm1, ?a)"
    by simp
  with cached show ?thesis
    by (simp add: Map_has_def Map_get_def)
qed

subsection \<open>The status store and the cache\<close>

lemma status_op_frame:
  "filterCache (apply_status_op dm x) = filterCache dm
   \<and> arrays (apply_status_op dm x) = arrays dm
   \<and> allRows (apply_status_op dm x) = allRows dm"
  by (cases x) (simp_all add: markAsDownloaded_def markAsFailed_def clearDownloadHistory_def)

lemma status_ops_frame:
  "filterCache (apply_status_ops dm ops) = filterCache dm
   \<and> arrays (apply_status_ops dm ops) = arrays dm
   \<and> allRows (apply_status_ops dm ops) = allRows dm"
proof (induction ops rule: rev_induct)
  case Nil
  show ?case by (simp add: apply_status_ops_def)
next
  case (snoc x xs)
  then show ?case by (simp add: apply_status_ops_snoc status_op_frame)
qed

text \<open>
  Claim C10. \<^verbatim>\<open>markAsDownloaded\<close>, \<^verbatim>\<open>markAsFailed\<close> and \<^verbatim>\<open>clearDownloadHistory\<close>, in
  any number and order, leave \<^verbatim>\<open>filterCache\<close> and the cached arrays as they are. So
  when the key of the filters is in the cache, \<^verbatim>\<open>applyFilters\<close> after these calls
  returns the cached array with its old content; nothing is computed from the new
  statuses.
\<close>

theorem status_calls_keep_filterCache:
  assumes "Map_get (filterCache dm) (JSON_stringify f) = Some a"
  shows "filterCache (apply_status_ops dm ops) = filterCache dm
    \<and> arrays (apply_status_ops dm ops) = arrays dm
    \<and> snd (applyFilters (apply_status_ops dm ops) f) = a
    \<and> arrays (fst (applyFilters (apply_status_ops dm ops) f)) = arrays dm"
proof -
  let ?dm' = "apply_status_ops dm ops"
  have frame: "filterCache ?dm' = filterCache dm" "arrays ?dm' = arrays dm"
    using status_ops_frame [of dm ops] by simp_all
  with assms have "Map_get (filterCache ?dm') (JSON_stringify f) = Some a"
    by simp
  then have "applyFilters ?dm' f = (?dm'\<lparr>filteredRows := a\<rparr>, a)"
    by (rule applyFilters_hit)
  with frame show ?thesis by simp
qed

theorem status_calls_keep_filterCache_witness:
  "Map_get (filterCache (fst (applyFilters one_row_manager (status_spec ''pending''))))
      (JSON_stringify (status_spec ''pending'')) = Some 1
   \<and> snd (applyFilters
            (apply_status_ops (fst (applyFilters one_row_manager (status_spec ''pending'')))
               [RecordSuccess ''GB-AEU-2025-0001'' 5])
            (status_spec ''pending'')) = 1
   \<and> arrays (fst (applyFilters
            (apply_status_ops (fst (applyFilters one_row_manager (status_spec ''pending'')))
               [RecordSuccess ''GB-AEU-2025-0001'' 5])
            (status_spec ''pending''))) ! 1 = [sample_row 0 ''GB-AEU-2025-0001'']
   \<and> filter (passesFilters
               (apply_status_ops (fst (applyFilters one_row_manager (status_spec ''pending'')))
                  [RecordSuccess ''GB-AEU-2025-0001'' 5])
               (status_spec ''pending''))
        (allRows (apply_status_ops (fst (applyFilters one_row_manager (status_spec ''pending'')))
                  [RecordSuccess ''GB-AEU-2025-0001'' 5])) = []"
proof -
  let ?f = "status_spec ''pending''"
  let ?dm1 = "fst (applyFilters one_row_manager ?f)"
  let ?ops = "[RecordSuccess ''GB-AEU-2025-0001'' 5]"
  have first: "applyFilters one_row_manager ?f =
      (one_row_manager\<lparr>arrays := [[], [sample_row 0 ''GB-AEU-2025-0001'']], filteredRows := 1,
         filterCache := [(JSON_stringify ?f, 1)]\<rparr>, 1)"
    by (simp add: applyFilters_def one_row_manager_def new_InvoiceDataManager_def
        Map_has_def Map_set_def Map_size_def Let_def passesFilters_def
        getDownloadStatus_def sample_row_def status_spec_def)
  then have cached: "Map_get (filterCache ?dm1) (JSON_stringify ?f) = Some 1"
    by (simp add: Map_get_def)
  have stale: "filter (passesFilters (apply_status_ops ?dm1 ?ops) ?f)
        (allRows (apply_status_ops ?dm1 ?ops)) = []"
    by (simp only: first fst_conv)
      (simp add: apply_status_ops_def markAsDownloaded_def passesFilters_def
        getDownloadStatus_def one_row_manager_def new_InvoiceDataManager_def sample_row_def
        status_spec_def)
  from first have content: "arrays ?dm1 ! 1 = [sample_row 0 ''GB-AEU-2025-0001'']"
    by simp
  from status_calls_keep_filterCache [OF cached, of ?ops] cached stale content
  show ?thesis by simp
qed
subsection \<open>The date range\<close>

lemma applyFilters_miss_result:
  assumes "\<not> Map_has (filterCache dm) (JSON_stringify f)"
  shows "arrays (fst (applyFilters dm f)) ! snd (applyFilters dm f)
           = filter (passesFilters dm f) (allRows dm)"
  using assms by (simp add: applyFilters_def Let_def)

text \<open>
  Claim C6. A row passes the callback of \<^verbatim>\<open>applyFilters\<close> exactly when it passes the
  same filters with both date bounds removed and neither bound excludes it, where
  \<^verbatim>\<open>dateFrom\<close> excludes only a row with a non-empty \<^verbatim>\<open>endDate\<close> that is smaller, as a
  string, than \<^verbatim>\<open>dateFrom\<close>, and \<^verbatim>\<open>dateTo\<close> excludes only a row with a non-empty
  \<^verbatim>\<open>startDate\<close> that is greater than \<^verbatim>\<open>dateTo\<close>. So for a row with an empty
  \<^verbatim>\<open>endDate\<close> the bound \<^verbatim>\<open>dateFrom\<close> makes no difference, for a row with an empty
  \<^verbatim>\<open>startDate\<close> the bound \<^verbatim>\<open>dateTo\<close> makes no difference, and for a row with both
  empty the date range makes no difference: when \<^verbatim>\<open>applyFilters\<close> computes its result,
  such a row of the table is in the result if it passes the filters without the date
  range.
\<close>

theorem date_range_is_lenient:
  "(passesFilters dm f d \<longleftrightarrow>
      passesFilters dm (f\<lparr>filter_dateFrom := '''', filter_dateTo := ''''\<rparr>) d
      \<and> \<not> (filter_dateFrom f \<noteq> '''' \<and> endDate d \<noteq> '''' \<and> endDate d < filter_dateFrom f)
      \<and> \<not> (filter_dateTo f \<noteq> '''' \<and> startDate d \<noteq> '''' \<and> filter_dateTo f < startDate d))
   \<and> (endDate d = '''' \<longrightarrow>
        passesFilters dm f d = passesFilters dm (f\<lparr>filter_dateFrom := ''''\<rparr>) d)
   \<and> (startDate d = '''' \<longrightarrow>
        passesFilters dm f d = passesFilters dm (f\<lparr>filter_dateTo := ''''\<rparr>) d)
   \<and> (startDate d = '''' \<and> endDate d = '''' \<longrightarrow>
        passesFilters dm f d
          = passesFilters dm (f\<lparr>filter_dateFrom := '''', filter_dateTo := ''''\<rparr>) d)
   \<and> (startDate d = '''' \<and> endDate d = '''' \<and> d \<in> set (allRows dm)
        \<and> passesFilters dm (f\<lparr>filter_dateFrom := '''', filter_dateTo := ''''\<rparr>) d
        \<and> \<not> Map_has (filterCache dm) (JSON_stringify f) \<longrightarrow>
        d \<in> set (arrays (fst (applyFilters dm f)) ! snd (applyFilters dm f)))"
proof -
  have pred: "passesFilters dm f d \<longleftrightarrow>
      passesFilters dm (f\<lparr>filter_dateFrom := '''', filter_dateTo := ''''\<rparr>) d
      \<and> \<not> (filter_dateFrom f \<noteq> '''' \<and> endDate d \<noteq> '''' \<and> endDate d < filter_dateFrom f)
      \<and> \<not> (filter_dateTo f \<noteq> '''' \<and> startDate d \<noteq> '''' \<and> filter_dateTo f < startDate d)"
    by (auto simp: passesFilters_def)
  have no_from: "passesFilters dm f d = passesFilters dm (f\<lparr>filter_dateFrom := ''''\<rparr>) d"
    if "endDate d = ''''"
    using that by (auto simp: passesFilters_def)
  have no_to: "passesFilters dm f d = passesFilters dm (f\<lparr>filter_dateTo := ''''\<rparr>) d"
    if "startDate d = ''''"
    using that by (auto simp: passesFilters_def)
  have neither: "passesFilters dm f d
      = passesFilters dm (f\<lparr>filter_dateFrom := '''', filter_dateTo := ''''\<rparr>) d"
    if "startDate d = ''''" "endDate d = ''''"
    using that by (auto simp: passesFilters_def)
  have "d \<in> set (arrays (fst (applyFilters dm f)) ! snd (applyFilters dm f))"
    if "startDate d = ''''" "endDate d = ''''" "d \<in> set (allRows dm)"
      "passesFilters dm (f\<lparr>filter_dateFrom := '''', filter_dateTo := ''''\<rparr>) d"
      "\<not> Map_has (filterCache dm) (JSON_stringify f)"
    using that(3,4) neither [OF that(1,2)] by (simp add: applyFilters_miss_result [OF that(5)])
  with pred no_from no_to neither show ?thesis
    by blast
qed

theorem date_range_is_lenient_witness:
  "startDate undated_row = '''' \<and> endDate undated_row = ''''
   \<and> passesFilters new_InvoiceDataManager (date_spec ''2025-05-01'' ''2025-12-31'') undated_row
   \<and> undated_row \<in> set (allRows (new_InvoiceDataManager\<lparr>allRows := [undated_row]\<rparr>))
   \<and> \<not> Map_has (filterCache (new_InvoiceDataManager\<lparr>allRows := [undated_row]\<rparr>))
          (JSON_stringify (date_spec ''2025-05-01'' ''2025-12-31''))
   \<and> undated_row
        \<in> set (arrays (fst (applyFilters (new_InvoiceDataManager\<lparr>allRows := [undated_row]\<rparr>)
                              (date_spec ''2025-05-01'' ''2025-12-31'')))
               ! snd (applyFilters (new_InvoiceDataManager\<lparr>allRows := [undated_row]\<rparr>)
                        (date_spec ''2025-05-01'' ''2025-12-31'')))
   \<and> endDate (sample_row 0 ''GB-AEU-2025-0001'') \<noteq> ''''
   \<and> endDate (sample_row 0 ''GB-AEU-2025-0001'') < filter_dateFrom (date_spec ''2025-05-01'' '''')
   \<and> \<not> passesFilters new_InvoiceDataManager (date_spec ''2025-05-01'' '''')
          (sample_row 0 ''GB-AEU-2025-0001'')"
proof -
  let ?dm = "new_InvoiceDataManager\<lparr>allRows := [undated_row]\<rparr>"
  let ?f = "date_spec ''2025-05-01'' ''2025-12-31''"
  have dates: "startDate undated_row = ''''" "endDate undated_row = ''''"
    by (simp_all add: undated_row_def)
  have miss: "\<not> Map_has (filterCache ?dm) (JSON_stringify ?f)"
    by (simp add: Map_has_def new_InvoiceDataManager_def)
  have without: "passesFilters ?dm (?f\<lparr>filter_dateFrom := '''', filter_dateTo := ''''\<rparr>) undated_row"
    by (simp add: passesFilters_def date_spec_def)
  have "undated_row \<in> set (arrays (fst (applyFilters ?dm ?f)) ! snd (applyFilters ?dm ?f))"
    using date_range_is_lenient [of ?dm ?f undated_row] dates miss without by simp
  moreover have "passesFilters new_InvoiceDataManager ?f undated_row"
    using date_range_is_lenient [of new_InvoiceDataManager ?f undated_row] dates
    by (simp add: passesFilters_def date_spec_def)
  moreover have "\<not> passesFilters new_InvoiceDataManager (date_spec ''2025-05-01'' '''')
          (sample_row 0 ''GB-AEU-2025-0001'')"
    using date_range_is_lenient
      [of new_InvoiceDataManager "date_spec ''2025-05-01'' ''''" "sample_row 0 ''GB-AEU-2025-0001''"]
    by (simp add: sample_row_def date_spec_def)
  moreover have "endDate (sample_row 0 ''GB-AEU-2025-0001'') \<noteq> ''''"
    "endDate (sample_row 0 ''GB-AEU-2025-0001'') < filter_dateFrom (date_spec ''2025-05-01'' '''')"
    by (simp_all add: sample_row_def date_spec_def)
  ultimately show ?thesis
    using dates miss by simp
qed

subsection \<open>The size of the cache\<close>

lemma update_fresh_key:
  "k \<notin> fst ` set m \<Longrightarrow> AList.update k v m = m @ [(k, v)]"
  by (induction m) auto

lemma Map_has_iff: "Map_has m k \<longleftrightarrow> k \<in> fst ` set m"
  by (simp add: Map_has_def map_of_eq_None_iff)

lemma applyFilters_miss_below_limit:
  assumes "\<not> Map_has (filterCache dm) (JSON_stringify f)" "Map_size (filterCache dm) \<le> 50"
  shows "filterCache (fst (applyFilters dm f))
           = filterCache dm @ [(JSON_stringify f, length (arrays dm))]"
  using assms
  by (simp add: applyFilters_def Let_def Map_set_def Map_has_iff update_fresh_key)

lemma length_delete_first_key:
  "m \<noteq> [] \<Longrightarrow> length (Map_delete_first_key m) < length m"
  by (cases m) (auto simp: Map_delete_first_key_def Map_delete_def AList.delete_eq
      intro: le_imp_less_Suc)

lemma length_update_le: "length (AList.update k v m) \<le> Suc (length m)"
  by (induction m) auto

text \<open>The bound the code keeps: 51.\<close>

lemma filterCache_size_invariant:
  assumes "Map_size (filterCache dm) \<le> 51"
  shows "Map_size (filterCache (fst (applyFilters dm f))) \<le> 51"
proof (cases "Map_has (filterCache dm) (JSON_stringify f)")
  case True
  with assms show ?thesis
    by (auto simp: applyFilters_def Let_def Map_size_def split: option.splits)
next
  case False
  show ?thesis
  proof (cases "Map_size (filterCache dm) > 50")
    case True
    then have "filterCache dm \<noteq> []"
      by (auto simp: Map_size_def)
    then have "length (Map_delete_first_key (filterCache dm)) < length (filterCache dm)"
      by (rule length_delete_first_key)
    with assms have "length (Map_delete_first_key (filterCache dm)) \<le> 50"
      by (simp add: Map_size_def)
    moreover have "length (AList.update (JSON_stringify f) (length (arrays dm))
                     (Map_delete_first_key (filterCache dm)))
                   \<le> Suc (length (Map_delete_first_key (filterCache dm)))"
      by (rule length_update_le)
    ultimately show ?thesis
      using False True by (simp add: applyFilters_def Let_def Map_size_def Map_set_def)
  next
    case below: False
    have "length (AList.update (JSON_stringify f) (length (arrays dm)) (filterCache dm))
            \<le> Suc (length (filterCache dm))"
      by (rule length_update_le)
    with False below show ?thesis
      by (simp add: applyFilters_def Let_def Map_size_def Map_set_def)
  qed
qed

lemma applyFilters_all_snoc:
  "applyFilters_all dm (fs @ [f]) = fst (applyFilters (applyFilters_all dm fs) f)"
  by (simp add: applyFilters_all_def)

lemma filterCache_size_reachable:
  "Map_size (filterCache (applyFilters_all new_InvoiceDataManager fs)) \<le> 51"
proof (induction fs rule: rev_induct)
  case Nil
  show ?case
    by (simp add: applyFilters_all_def new_InvoiceDataManager_def Map_size_def)
next
  case (snoc f fs)
  then show ?case
    by (simp add: applyFilters_all_snoc filterCache_size_invariant)
qed

lemma length_escape_letters:
  "length (concat (replicate k (json_escape CHR ''a''))) = k"
  by (induction k) (simp_all add: json_escape_def)

lemma length_key: "length (JSON_stringify (spec_no k)) = 56 + k"
  by (simp add: JSON_stringify_def spec_no_def json_quote_def length_escape_letters)
    (simp add: json_escape_def)

lemma key_inj:
  assumes "JSON_stringify (spec_no j) = JSON_stringify (spec_no k)"
  shows "j = k"
proof -
  from assms have "length (JSON_stringify (spec_no j)) = length (JSON_stringify (spec_no k))"
    by (rule arg_cong)
  then show ?thesis
    by (simp only: length_key add_left_cancel)
qed

lemma keys_after:
  "n \<le> 51 \<Longrightarrow>
     map fst (filterCache (applyFilters_all new_InvoiceDataManager (map spec_no [0..<n])))
       = map (\<lambda>k. JSON_stringify (spec_no k)) [0..<n]"
proof (induction n)
  case 0
  show ?case
    by (simp add: applyFilters_all_def new_InvoiceDataManager_def)
next
  case (Suc n)
  let ?dm = "applyFilters_all new_InvoiceDataManager (map spec_no [0..<n])"
  from Suc have keys: "map fst (filterCache ?dm) = map (\<lambda>k. JSON_stringify (spec_no k)) [0..<n]"
    by simp
  then have "length (map fst (filterCache ?dm)) = n"
    by simp
  with Suc.prems have size: "Map_size (filterCache ?dm) \<le> 50"
    by (simp add: Map_size_def)
  have "JSON_stringify (spec_no n) \<notin> set (map fst (filterCache ?dm))"
    unfolding keys by (auto dest: key_inj)
  then have miss: "\<not> Map_has (filterCache ?dm) (JSON_stringify (spec_no n))"
    by (simp add: Map_has_iff)
  show ?case
    using applyFilters_miss_below_limit [OF miss size] keys
    by (simp add: applyFilters_all_snoc)
qed

text \<open>
  Claim C1 fails on the code. \<^verbatim>\<open>applyFilters\<close> tests \<^verbatim>\<open>filterCache.size > 50\<close> before
  it inserts, so with 50 entries nothing is evicted and the insertion makes 51. After
  51 calls with 51 different filters on a new data manager the cache holds 51 entries,
  the oldest among them.
\<close>

theorem filterCache_holds_51:
  "Map_size (filterCache (applyFilters_all new_InvoiceDataManager (map spec_no [0..<51]))) = 51
   \<and> Map_has (filterCache (applyFilters_all new_InvoiceDataManager (map spec_no [0..<51])))
       (JSON_stringify (spec_no 0))"
proof -
  let ?dm = "applyFilters_all new_InvoiceDataManager (map spec_no [0..<51])"
  have keys: "map fst (filterCache ?dm) = map (\<lambda>k. JSON_stringify (spec_no k)) [0..<51]"
    by (rule keys_after) simp
  then have "length (map fst (filterCache ?dm)) = length [0..<51::nat]"
    by (simp only: length_map)
  then have "Map_size (filterCache ?dm) = 51"
    by (simp only: Map_size_def length_map length_upt)
  moreover have "JSON_stringify (spec_no 0) \<in> (\<lambda>k. JSON_stringify (spec_no k)) ` set [0..<51]"
    by (rule imageI) (simp only: set_upt atLeastLessThan_iff, simp)
  then have "JSON_stringify (spec_no 0) \<in> set (map fst (filterCache ?dm))"
    by (simp only: keys set_map)
  then have "Map_has (filterCache ?dm) (JSON_stringify (spec_no 0))"
    by (simp add: Map_has_iff)
  ultimately show ?thesis by simp
qed

section \<open>Properties of the download orchestrator\<close>

subsection \<open>One pass of the loop\<close>

lemma download_item_dataManager:
  "dataManager (fst (download_item env dl i sc fc))
     = apply_status_op (dataManager dl) (status_update env (downloadQueue dl) i)"
  by (simp add: download_item_def status_update_def cancelDownload_def Let_def
      split: fetch_outcome.splits)

lemma download_item_downloadQueue:
  "downloadQueue (fst (download_item env dl i sc fc)) = downloadQueue dl"
  by (simp add: download_item_def cancelDownload_def Let_def split: fetch_outcome.splits)

lemma download_item_isDownloading:
  "isDownloading dl \<Longrightarrow>
     isDownloading (fst (download_item env dl i sc fc))
       \<longleftrightarrow> \<not> cancelled_at env (length (downloadQueue dl)) i"
  by (auto simp: download_item_def cancelDownload_def cancelled_at_def Let_def
      split: fetch_outcome.splits)

subsection \<open>Where the loop stops\<close>

lemma stop_index_done: "n \<le> i \<Longrightarrow> stop_index env n i = n"
  by (simp add: stop_index_def)

lemma stop_index_cancelled:
  "i < n \<Longrightarrow> cancelled_at env n i \<Longrightarrow> stop_index env n i = i + 1"
  by (simp add: stop_index_def upt_conv_Cons)

lemma stop_index_continue:
  "i < n \<Longrightarrow> \<not> cancelled_at env n i \<Longrightarrow> stop_index env n i = stop_index env n (i + 1)"
  by (simp add: stop_index_def upt_conv_Cons)

lemma stop_index_bounds: "i \<le> n \<Longrightarrow> i \<le> stop_index env n i \<and> stop_index env n i \<le> n"
proof (induction "n - i" arbitrary: i)
  case 0
  then show ?case by (simp add: stop_index_done)
next
  case (Suc d)
  then have "i < n" by simp
  show ?case
  proof (cases "cancelled_at env n i")
    case True
    with \<open>i < n\<close> show ?thesis by (simp add: stop_index_cancelled)
  next
    case False
    from Suc(2) \<open>i < n\<close> have "d = n - (i + 1)" by simp
    from Suc(1) [OF this] \<open>i < n\<close> have "i + 1 \<le> stop_index env n (i + 1) \<and> stop_index env n (i + 1) \<le> n"
      by simp
    with False \<open>i < n\<close> show ?thesis by (simp add: stop_index_continue)
  qed
qed

lemma stop_index_no_cancel:
  assumes "\<forall>j<n. \<not> cancelled_at env n j"
  shows "stop_index env n i = n"
proof -
  from assms have "find (cancelled_at env n) [i..<n] = None"
    by (simp add: find_None_iff)
  then show ?thesis
    by (simp add: stop_index_def)
qed

subsection \<open>The loop\<close>

lemma download_loop_stopped:
  "\<not> isDownloading dl \<Longrightarrow> download_loop env dl i sc fc = (dl, sc, fc)"
  by (subst download_loop.simps) simp

lemma download_loop_finished:
  "length (downloadQueue dl) \<le> i \<Longrightarrow> download_loop env dl i sc fc = (dl, sc, fc)"
  by (subst download_loop.simps) simp

lemma download_loop_step:
  assumes "i < length (downloadQueue dl)" "isDownloading dl"
    "download_item env dl i sc fc = (dl', sc', fc')"
  shows "download_loop env dl i sc fc = download_loop env dl' (i + 1) sc' fc'"
  using assms by (subst download_loop.simps) simp

lemma download_loop_dataManager:
  assumes "isDownloading dl"
  shows "dataManager (fst (download_loop env dl i sc fc))
     = apply_status_ops (dataManager dl)
         (map (status_update env (downloadQueue dl))
            [i..<stop_index env (length (downloadQueue dl)) i])"
  using assms
proof (induction env dl i sc fc rule: download_loop.induct)
  case (1 env dl i sc fc)
  let ?n = "length (downloadQueue dl)"
  show ?case
  proof (cases "i < ?n")
    case False
    then show ?thesis
      by (simp add: download_loop_finished stop_index_done apply_status_ops_def)
  next
    case True
    obtain dl' sc' fc' where item: "download_item env dl i sc fc = (dl', sc', fc')"
      by (cases "download_item env dl i sc fc") auto
    then have dl': "dl' = fst (download_item env dl i sc fc)"
      by simp
    have dm': "dataManager dl' = apply_status_op (dataManager dl) (status_update env (downloadQueue dl) i)"
      by (simp add: dl' download_item_dataManager)
    have q': "downloadQueue dl' = downloadQueue dl"
      by (simp add: dl' download_item_downloadQueue)
    have run': "isDownloading dl' \<longleftrightarrow> \<not> cancelled_at env ?n i"
      using "1.prems" by (simp add: dl' download_item_isDownloading)
    have unfold: "download_loop env dl i sc fc = download_loop env dl' (i + 1) sc' fc'"
      using True "1.prems" item by (rule download_loop_step)
    show ?thesis
    proof (cases "cancelled_at env ?n i")
      case True
      with run' have "download_loop env dl' (i + 1) sc' fc' = (dl', sc', fc')"
        by (simp add: download_loop_stopped)
      with unfold True \<open>i < ?n\<close> dm' show ?thesis
        by (simp add: stop_index_cancelled apply_status_ops_def)
    next
      case False
      with run' have "isDownloading dl'" by simp
      from True "1.prems" have "i < ?n \<and> isDownloading dl"
        by simp
      from "1.IH" [OF this item [symmetric] refl \<open>isDownloading dl'\<close>]
      have "dataManager (fst (download_loop env dl' (i + 1) sc' fc'))
              = apply_status_ops (dataManager dl')
                  (map (status_update env (downloadQueue dl'))
                     [i + 1..<stop_index env (length (downloadQueue dl')) (i + 1)])"
        by simp
      moreover have "i + 1 \<le> stop_index env ?n (i + 1)"
        using stop_index_bounds [of "i + 1" ?n env] True by simp
      then have "[i..<stop_index env ?n (i + 1)] = i # [i + 1..<stop_index env ?n (i + 1)]"
        by (simp add: upt_conv_Cons)
      ultimately show ?thesis
        using unfold False True dm' q'
        by (simp add: stop_index_continue apply_status_ops_Cons)
    qed
  qed
qed
lemma startDirectDownload_dataManager:
  assumes "\<not> isDownloading dl"
  shows "dataManager (fst (startDirectDownload env dl))
     = apply_status_ops (dataManager dl)
         (map (status_update env (selectedRows (dataManager dl)))
            [0..<processed_count env (length (selectedRows (dataManager dl)))])"
proof (cases "selectedRows (dataManager dl) = []")
  case True
  with assms show ?thesis
    by (simp add: startDirectDownload_def processed_count_def stop_index_done
        apply_status_ops_def)
next
  case False
  let ?dl1 = "dl\<lparr>isDownloading := True, downloadQueue := selectedRows (dataManager dl),
                   currentDownloadIndex := 0\<rparr>"
  have "isDownloading ?dl1" by simp
  from download_loop_dataManager [OF this, of env 0 0 0]
  have "dataManager (fst (download_loop env ?dl1 0 0 0))
     = apply_status_ops (dataManager dl)
         (map (status_update env (selectedRows (dataManager dl)))
            [0..<processed_count env (length (selectedRows (dataManager dl)))])"
    by (simp add: processed_count_def)
  with assms False show ?thesis
    by (simp add: startDirectDownload_def Let_def case_prod_beta)
qed

lemma startDirectDownload_rejected:
  "isDownloading dl \<Longrightarrow> startDirectDownload env dl = (dl, None)"
  by (simp add: startDirectDownload_def)

subsection \<open>Calls for other invoices\<close>

lemma status_update_not_Clear: "status_update env queue j \<noteq> Clear"
  by (simp add: status_update_def split: fetch_outcome.splits)

lemma status_update_success:
  "is_success_of i (status_update env queue j) \<Longrightarrow> i = invoiceId (queue ! j)"
  by (simp add: status_update_def split: fetch_outcome.splits)

lemma status_update_failure:
  "is_failure_of i (status_update env queue j) \<Longrightarrow> i = invoiceId (queue ! j)"
  by (simp add: status_update_def split: fetch_outcome.splits)

lemma other_op_frame:
  assumes "x \<noteq> Clear" "\<not> is_success_of i x" "\<not> is_failure_of i x"
  shows "downloadStatus (apply_status_op dm x) i = downloadStatus dm i
    \<and> (i \<in> downloadedInvoices (apply_status_op dm x) \<longleftrightarrow> i \<in> downloadedInvoices dm)"
  using assms by (cases x) (auto simp: markAsDownloaded_def markAsFailed_def)

lemma other_ops_frame:
  assumes "\<forall>x \<in> set ops. x \<noteq> Clear \<and> \<not> is_success_of i x \<and> \<not> is_failure_of i x"
  shows "downloadStatus (apply_status_ops dm ops) i = downloadStatus dm i
    \<and> (i \<in> downloadedInvoices (apply_status_ops dm ops) \<longleftrightarrow> i \<in> downloadedInvoices dm)"
  using assms
proof (induction ops rule: rev_induct)
  case Nil
  show ?case by (simp add: apply_status_ops_def)
next
  case (snoc x xs)
  then show ?case
    by (simp add: apply_status_ops_snoc other_op_frame)
qed

lemma updates_frame:
  assumes "\<forall>j \<in> set js. invoiceId (queue ! j) \<noteq> i"
  shows "downloadStatus (apply_status_ops dm (map (status_update env queue) js)) i
           = downloadStatus dm i
    \<and> (i \<in> downloadedInvoices (apply_status_ops dm (map (status_update env queue) js))
         \<longleftrightarrow> i \<in> downloadedInvoices dm)"
proof (rule other_ops_frame)
  show "\<forall>x \<in> set (map (status_update env queue) js).
          x \<noteq> Clear \<and> \<not> is_success_of i x \<and> \<not> is_failure_of i x"
    using assms
    by (auto simp: status_update_not_Clear dest: status_update_success status_update_failure)
qed

lemma own_op_entry:
  assumes "downloadStatus dm i = downloadStatus dm0 i"
    "i \<in> downloadedInvoices dm \<longleftrightarrow> i \<in> downloadedInvoices dm0"
  shows "downloadStatus (apply_status_op dm x) i = downloadStatus (apply_status_op dm0 x) i
    \<and> (i \<in> downloadedInvoices (apply_status_op dm x)
         \<longleftrightarrow> i \<in> downloadedInvoices (apply_status_op dm0 x))"
  using assms
  by (cases x) (auto simp: markAsDownloaded_def markAsFailed_def clearDownloadHistory_def
      attempts_of_def)

lemma processed_item_entry:
  assumes "j < k" "k \<le> length queue" "distinct (map invoiceId (take k queue))"
  shows "downloadStatus (apply_status_ops dm (map (status_update env queue) [0..<k]))
             (invoiceId (queue ! j))
           = downloadStatus (apply_status_op dm (status_update env queue j)) (invoiceId (queue ! j))
    \<and> (invoiceId (queue ! j)
          \<in> downloadedInvoices (apply_status_ops dm (map (status_update env queue) [0..<k]))
        \<longleftrightarrow> invoiceId (queue ! j)
          \<in> downloadedInvoices (apply_status_op dm (status_update env queue j)))"
proof -
  let ?i = "invoiceId (queue ! j)" and ?u = "status_update env queue"
  have others: "invoiceId (queue ! l) \<noteq> ?i" if "l < k" "l \<noteq> j" for l
  proof -
    from assms(2) have len: "length (map invoiceId (take k queue)) = k"
      by simp
    from assms(1) that(1) len
    have "map invoiceId (take k queue) ! l = map invoiceId (take k queue) ! j \<longleftrightarrow> l = j"
      by (intro nth_eq_iff_index_eq [OF assms(3)]) simp_all
    moreover from assms(1,2) that(1)
    have "map invoiceId (take k queue) ! l = invoiceId (queue ! l)"
      and "map invoiceId (take k queue) ! j = invoiceId (queue ! j)"
      by simp_all
    ultimately show ?thesis
      using that(2) by simp
  qed
  from assms(1) have "[0..<j + (k - j)] = [0..<j] @ [j..<j + (k - j)]"
    by (intro upt_add_eq_append) simp
  with assms(1) have split: "[0..<k] = [0..<j] @ j # [j + 1..<k]"
    by (simp add: upt_conv_Cons)
  let ?before = "apply_status_ops dm (map ?u [0..<j])"
  have before: "downloadStatus ?before ?i = downloadStatus dm ?i
      \<and> (?i \<in> downloadedInvoices ?before \<longleftrightarrow> ?i \<in> downloadedInvoices dm)"
    by (rule updates_frame) (use others assms(1) in auto)
  then have own: "downloadStatus (apply_status_op ?before (?u j)) ?i
        = downloadStatus (apply_status_op dm (?u j)) ?i
      \<and> (?i \<in> downloadedInvoices (apply_status_op ?before (?u j))
           \<longleftrightarrow> ?i \<in> downloadedInvoices (apply_status_op dm (?u j)))"
    by (intro own_op_entry) simp_all
  have after: "downloadStatus (apply_status_ops (apply_status_op ?before (?u j))
                   (map ?u [j + 1..<k])) ?i
        = downloadStatus (apply_status_op ?before (?u j)) ?i
      \<and> (?i \<in> downloadedInvoices (apply_status_ops (apply_status_op ?before (?u j))
                   (map ?u [j + 1..<k]))
           \<longleftrightarrow> ?i \<in> downloadedInvoices (apply_status_op ?before (?u j)))"
    by (rule updates_frame) (use others in auto)
  have "apply_status_ops dm (map ?u [0..<k])
          = apply_status_ops (apply_status_op ?before (?u j)) (map ?u [j + 1..<k])"
    by (subst split) (simp add: apply_status_ops_append apply_status_ops_Cons)
  with own after show ?thesis
    by simp
qed
subsection \<open>A run\<close>

lemma processed_count_le: "processed_count env n \<le> n"
  using stop_index_bounds [of 0 n env] by (simp add: processed_count_def)

lemma processed_count_no_cancel:
  "\<forall>j<n. \<not> cancelled_at env n j \<Longrightarrow> processed_count env n = n"
  by (simp add: processed_count_def stop_index_no_cancel)

lemma skipped_item_frame:
  assumes "k \<le> length queue" "i \<notin> invoiceId ` set (take k queue)"
  shows "downloadStatus (apply_status_ops dm (map (status_update env queue) [0..<k])) i
           = downloadStatus dm i
    \<and> (i \<in> downloadedInvoices (apply_status_ops dm (map (status_update env queue) [0..<k]))
         \<longleftrightarrow> i \<in> downloadedInvoices dm)"
proof (rule updates_frame)
  show "\<forall>j \<in> set [0..<k]. invoiceId (queue ! j) \<noteq> i"
  proof
    fix j assume "j \<in> set [0..<k]"
    with assms(1) have "j < length (take k queue)" and "take k queue ! j = queue ! j"
      by simp_all
    then have "queue ! j \<in> set (take k queue)"
      by (metis nth_mem)
    with assms(2) show "invoiceId (queue ! j) \<noteq> i"
      by auto
  qed
qed

text \<open>
  Claim C5, amended. A call of \<^verbatim>\<open>startDirectDownload\<close> on an idle downloader handles
  the first \<open>k\<close> items of the selection, where \<open>k\<close> is the whole length when Cancel is
  never pressed, whatever the outcomes of the retrievals, and otherwise ends with the
  item during or after which Cancel is pressed. The status store receives exactly one
  call for each handled item, in order, and no other call: \<^verbatim>\<open>markAsDownloaded\<close> when
  the retrieval resolved, \<^verbatim>\<open>markAsFailed\<close> with the message when it rejected. When the
  handled items have different invoice ids, the entry of each is what this one call
  makes of its entry before the run. A skipped item whose invoice id is not the id of
  a handled item keeps its entry and its place in or out of \<^verbatim>\<open>downloadedInvoices\<close>.
\<close>

theorem one_status_update_per_handled_item:
  fixes env :: "nat \<Rightarrow> attempt" and dl :: invoice_downloader
  defines "queue \<equiv> selectedRows (dataManager dl)"
  defines "k \<equiv> processed_count env (length queue)"
  defines "dm' \<equiv> dataManager (fst (startDirectDownload env dl))"
  assumes idle: "\<not> isDownloading dl"
  shows "k \<le> length queue
    \<and> ((\<forall>j<length queue. \<not> cancelled_at env (length queue) j) \<longrightarrow> k = length queue)
    \<and> dm' = apply_status_ops (dataManager dl) (map (status_update env queue) [0..<k])
    \<and> (distinct (map invoiceId (take k queue)) \<longrightarrow>
         (\<forall>j<k. downloadStatus dm' (invoiceId (queue ! j))
                   = downloadStatus (apply_status_op (dataManager dl) (status_update env queue j))
                       (invoiceId (queue ! j))
               \<and> (invoiceId (queue ! j) \<in> downloadedInvoices dm'
                    \<longleftrightarrow> invoiceId (queue ! j)
                      \<in> downloadedInvoices
                          (apply_status_op (dataManager dl) (status_update env queue j)))))
    \<and> (\<forall>j. k \<le> j \<and> j < length queue
            \<and> invoiceId (queue ! j) \<notin> invoiceId ` set (take k queue) \<longrightarrow>
          downloadStatus dm' (invoiceId (queue ! j))
            = downloadStatus (dataManager dl) (invoiceId (queue ! j))
          \<and> (invoiceId (queue ! j) \<in> downloadedInvoices dm'
               \<longleftrightarrow> invoiceId (queue ! j) \<in> downloadedInvoices (dataManager dl)))"
proof -
  have le: "k \<le> length queue"
    unfolding k_def by (rule processed_count_le)
  have all: "k = length queue" if "\<forall>j<length queue. \<not> cancelled_at env (length queue) j"
    unfolding k_def using that by (rule processed_count_no_cancel)
  have run: "dm' = apply_status_ops (dataManager dl) (map (status_update env queue) [0..<k])"
    unfolding dm'_def k_def queue_def using idle by (rule startDirectDownload_dataManager)
  have handled:
    "downloadStatus dm' (invoiceId (queue ! j))
       = downloadStatus (apply_status_op (dataManager dl) (status_update env queue j))
           (invoiceId (queue ! j))
     \<and> (invoiceId (queue ! j) \<in> downloadedInvoices dm'
          \<longleftrightarrow> invoiceId (queue ! j)
            \<in> downloadedInvoices (apply_status_op (dataManager dl) (status_update env queue j)))"
    if "distinct (map invoiceId (take k queue))" "j < k" for j
    unfolding run using that(2) le that(1) by (rule processed_item_entry)
  have skipped:
    "downloadStatus dm' (invoiceId (queue ! j))
       = downloadStatus (dataManager dl) (invoiceId (queue ! j))
     \<and> (invoiceId (queue ! j) \<in> downloadedInvoices dm'
          \<longleftrightarrow> invoiceId (queue ! j) \<in> downloadedInvoices (dataManager dl))"
    if "invoiceId (queue ! j) \<notin> invoiceId ` set (take k queue)" for j
    unfolding run using le that by (rule skipped_item_frame)
  from le all run handled skipped show ?thesis
    by blast
qed

subsection \<open>Concrete runs\<close>

lemma selectedRows_three_rows:
  "selectedRows (dataManager (idle_downloader three_rows)) = three_rows"
  by (simp add: selectedRows_def idle_downloader_def new_InvoiceDataManager_def
      three_rows_def sample_row_def getDownloadStatus_def)

lemma selectedRows_two_unmatched_rows:
  "selectedRows (dataManager (idle_downloader two_unmatched_rows)) = two_unmatched_rows"
  by (simp add: selectedRows_def idle_downloader_def new_InvoiceDataManager_def
      two_unmatched_rows_def sample_row_def getDownloadStatus_def)

lemma upt_2: "[0..<2] = [0, 1]"
  by (simp add: upt_rec)

lemma upt_3: "[0..<3] = [0, 1, 2]"
  by (simp add: upt_rec)

lemma processed_count_second_fails_then_cancel:
  "processed_count second_fails_then_cancel 3 = 2"
  by (simp add: processed_count_def stop_index_def upt_3 cancelled_at_def
      second_fails_then_cancel_def)

lemma processed_count_second_fails:
  "processed_count second_fails 3 = 3"
  by (simp add: processed_count_def stop_index_def upt_3 cancelled_at_def second_fails_def)

lemma processed_count_cancel_after_first:
  "processed_count cancel_after_first 2 = 1"
  by (simp add: processed_count_def stop_index_def upt_2 cancelled_at_def
      cancel_after_first_def)

text \<open>
  The loop itself on a batch of three whose second retrieval fails: two successes and
  one failure are counted.
\<close>

lemma second_fails_counts:
  "snd (startDirectDownload second_fails (idle_downloader three_rows)) = Some (2, 1)"
  apply (simp add: startDirectDownload_def selectedRows_three_rows Let_def case_prod_beta)
  apply (simp add: three_rows_def idle_downloader_def)
  apply (subst download_loop.simps,
      simp add: download_item_def Let_def second_fails_def downloadPdfDirect_def sample_row_def)+
  done

theorem one_status_update_per_handled_item_witness:
  "\<not> isDownloading (idle_downloader three_rows)
   \<and> \<not> cancelled_at second_fails 3 0 \<and> \<not> cancelled_at second_fails 3 1
   \<and> \<not> cancelled_at second_fails 3 2
   \<and> processed_count second_fails 3 = 3
   \<and> getDownloadStatus
        (dataManager (fst (startDirectDownload second_fails (idle_downloader three_rows))))
        ''GB-AEU-2025-0003'' = ''downloaded''
   \<and> processed_count second_fails_then_cancel 3 = 2
   \<and> distinct (map invoiceId (take 2 three_rows))
   \<and> invoiceId (three_rows ! 2) \<notin> invoiceId ` set (take 2 three_rows)
   \<and> downloadStatus
        (dataManager
           (fst (startDirectDownload second_fails_then_cancel (idle_downloader three_rows))))
        ''GB-AEU-2025-0001''
      = Some \<lparr>entry_status = ''downloaded'', entry_timestamp = 1000, entry_attempts = 1,
               entry_error = None\<rparr>
   \<and> downloadStatus
        (dataManager
           (fst (startDirectDownload second_fails_then_cancel (idle_downloader three_rows))))
        ''GB-AEU-2025-0002''
      = Some \<lparr>entry_status = ''failed'', entry_timestamp = 1001, entry_attempts = 1,
               entry_error = Some ''Failed to fetch''\<rparr>
   \<and> downloadStatus
        (dataManager
           (fst (startDirectDownload second_fails_then_cancel (idle_downloader three_rows))))
        ''GB-AEU-2025-0003'' = None"
proof -
  have idle: "\<not> isDownloading (idle_downloader three_rows)"
    by (simp add: idle_downloader_def)
  note cancelled = one_status_update_per_handled_item
    [OF idle, of second_fails_then_cancel, unfolded selectedRows_three_rows]
  note complete = one_status_update_per_handled_item
    [OF idle, of second_fails, unfolded selectedRows_three_rows]
  have len: "length three_rows = 3"
    by (simp add: three_rows_def)
  from cancelled
  have run1: "dataManager
        (fst (startDirectDownload second_fails_then_cancel (idle_downloader three_rows)))
      = apply_status_ops (dataManager (idle_downloader three_rows))
          (map (status_update second_fails_then_cancel three_rows) [0..<2])"
    by (simp only: len processed_count_second_fails_then_cancel)
  from complete
  have run2: "dataManager (fst (startDirectDownload second_fails (idle_downloader three_rows)))
      = apply_status_ops (dataManager (idle_downloader three_rows))
          (map (status_update second_fails three_rows) [0..<3])"
    by (simp only: len processed_count_second_fails)
  show ?thesis
    unfolding run1 run2 upt_2 upt_3
    by (simp add: idle processed_count_second_fails processed_count_second_fails_then_cancel
        cancelled_at_def second_fails_def second_fails_then_cancel_def three_rows_def
        sample_row_def apply_status_ops_def status_update_def downloadPdfDirect_def
        markAsDownloaded_def markAsFailed_def attempts_of_def getDownloadStatus_def
        idle_downloader_def new_InvoiceDataManager_def)
qed

text \<open>
  Claim C5, as the specification states it, fails for a selection in which two rows
  have the same invoice id, as all rows have on which no cell matched the invoice
  pattern. The selection holds two such rows, the first retrieval succeeds, and Cancel
  is pressed during the delay that follows. The run handles one item and skips the
  second, yet the entry of the second row has changed and its status has gone from
  \<^verbatim>\<open>'pending'\<close> to \<^verbatim>\<open>'downloaded'\<close>.
\<close>

theorem skipped_item_entry_changes:
  "selectedRows (dataManager (idle_downloader two_unmatched_rows)) = two_unmatched_rows
   \<and> processed_count cancel_after_first (length two_unmatched_rows) = 1
   \<and> getDownloadStatus (dataManager (idle_downloader two_unmatched_rows))
        (invoiceId (two_unmatched_rows ! 1)) = ''pending''
   \<and> getDownloadStatus
        (dataManager
           (fst (startDirectDownload cancel_after_first (idle_downloader two_unmatched_rows))))
        (invoiceId (two_unmatched_rows ! 1)) = ''downloaded''
   \<and> downloadStatus
        (dataManager
           (fst (startDirectDownload cancel_after_first (idle_downloader two_unmatched_rows))))
        (invoiceId (two_unmatched_rows ! 1))
      \<noteq> downloadStatus (dataManager (idle_downloader two_unmatched_rows))
           (invoiceId (two_unmatched_rows ! 1))"
proof -
  have idle: "\<not> isDownloading (idle_downloader two_unmatched_rows)"
    by (simp add: idle_downloader_def)
  have len: "length two_unmatched_rows = 2"
    by (simp add: two_unmatched_rows_def)
  have run: "dataManager
        (fst (startDirectDownload cancel_after_first (idle_downloader two_unmatched_rows)))
      = apply_status_ops (dataManager (idle_downloader two_unmatched_rows))
          (map (status_update cancel_after_first two_unmatched_rows) [0..<1])"
    using startDirectDownload_dataManager [OF idle, of cancel_after_first]
    by (simp only: selectedRows_two_unmatched_rows len processed_count_cancel_after_first)
  have before: "getDownloadStatus (dataManager (idle_downloader two_unmatched_rows))
        (invoiceId (two_unmatched_rows ! 1)) = ''pending''"
    by (simp add: two_unmatched_rows_def sample_row_def getDownloadStatus_def
        idle_downloader_def new_InvoiceDataManager_def)
  have after: "getDownloadStatus
        (dataManager
           (fst (startDirectDownload cancel_after_first (idle_downloader two_unmatched_rows))))
        (invoiceId (two_unmatched_rows ! 1)) = ''downloaded''"
    unfolding run
    by (simp add: cancel_after_first_def two_unmatched_rows_def sample_row_def
        apply_status_ops_def status_update_def downloadPdfDirect_def markAsDownloaded_def
        getDownloadStatus_def)
  have entry: "downloadStatus
        (dataManager
           (fst (startDirectDownload cancel_after_first (idle_downloader two_unmatched_rows))))
        (invoiceId (two_unmatched_rows ! 1))
      \<noteq> downloadStatus (dataManager (idle_downloader two_unmatched_rows))
           (invoiceId (two_unmatched_rows ! 1))"
    unfolding run
    by (simp add: cancel_after_first_def two_unmatched_rows_def sample_row_def
        apply_status_ops_def status_update_def downloadPdfDirect_def markAsDownloaded_def
        idle_downloader_def new_InvoiceDataManager_def)
  from selectedRows_two_unmatched_rows processed_count_cancel_after_first before after entry
  show ?thesis
    by (simp only: len simp_thms)
qed

section \<open>Properties of the row parser\<close>

subsection \<open>Button metadata\<close>

text \<open>
  Claim C8, as the specification states it, fails: \<^verbatim>\<open>extractButtonData\<close> stores what
  \<^verbatim>\<open>getAttribute\<close> returns, and that is \<^verbatim>\<open>null\<close> for an attribute the button does not
  have. For a button without \<^verbatim>\<open>data-filetype\<close> the property \<^verbatim>\<open>fileType\<close> is
  \<^verbatim>\<open>null\<close>, not the empty string.
\<close>

theorem absent_attribute_is_null:
  "button_attrs bare_button ''data-filetype'' = None
   \<and> btn_fileType (extractButtonData (Some bare_button)) = Null
   \<and> btn_fileType (extractButtonData (Some bare_button)) \<noteq> Str ''''"
  by (simp add: bare_button_def extractButtonData_def getAttribute_def)

text \<open>
  Claim C8, amended. For a button that is present, each of the seven properties holds
  the value of its attribute when the button has the attribute and \<^verbatim>\<open>null\<close> when it
  has not, and never \<^verbatim>\<open>undefined\<close>. Without a button the method returns the empty
  object, all of whose properties read \<^verbatim>\<open>undefined\<close>; it has no other outcome.
\<close>

theorem extractButtonData_reads_attributes:
  "extractButtonData None = empty_object
   \<and> btn_endDate (extractButtonData (Some b))
       = (case button_attrs b ''data-enddate'' of None \<Rightarrow> Null | Some v \<Rightarrow> Str v)
   \<and> btn_fileType (extractButtonData (Some b))
       = (case button_attrs b ''data-filetype'' of None \<Rightarrow> Null | Some v \<Rightarrow> Str v)
   \<and> btn_filterName (extractButtonData (Some b))
       = (case button_attrs b ''data-filtername'' of None \<Rightarrow> Null | Some v \<Rightarrow> Str v)
   \<and> btn_invoice (extractButtonData (Some b))
       = (case button_attrs b ''data-invoice'' of None \<Rightarrow> Null | Some v \<Rightarrow> Str v)
   \<and> btn_payeeRegistrationNumber (extractButtonData (Some b))
       = (case button_attrs b ''data-payeeregistrationnumber'' of
            None \<Rightarrow> Null | Some v \<Rightarrow> Str v)
   \<and> btn_rarId (extractButtonData (Some b))
       = (case button_attrs b ''data-rarid'' of None \<Rightarrow> Null | Some v \<Rightarrow> Str v)
   \<and> btn_shedDocumentName (extractButtonData (Some b))
       = (case button_attrs b ''data-sheddocumentname'' of None \<Rightarrow> Null | Some v \<Rightarrow> Str v)
   \<and> Undefined \<notin> {btn_endDate (extractButtonData (Some b)),
         btn_fileType (extractButtonData (Some b)),
         btn_filterName (extractButtonData (Some b)),
         btn_invoice (extractButtonData (Some b)),
         btn_payeeRegistrationNumber (extractButtonData (Some b)),
         btn_rarId (extractButtonData (Some b)),
         btn_shedDocumentName (extractButtonData (Some b))}"
  by (simp add: extractButtonData_def getAttribute_def split: option.splits)

subsection \<open>Dates\<close>

lemma extractStartDate_is_first_occurrence:
  "extractStartDate h cs = extractDate_from h cs 0 0"
  by (induction cs) (simp_all add: Let_def)

lemma extractEndDate_from_is_second_occurrence:
  "extractEndDate_from h cs c = extractDate_from h cs 1 c"
  by (induction cs arbitrary: c) (simp_all add: Let_def)

lemma content_js_dates:
  "extractStartDate h cs = extractDate h cs 0 \<and> extractEndDate h cs = extractDate h cs 1"
  by (simp add: extractDate_def extractEndDate_def extractStartDate_is_first_occurrence
      extractEndDate_from_is_second_occurrence)

text \<open>
  When the host parses every cell that matches the date pattern, \<^verbatim>\<open>extractDate\<close>
  returns.
\<close>

lemma extractDate_from_returns:
  assumes "\<forall>c \<in> set cs. matches_date_pattern (trim c) \<longrightarrow> Date_parse h (trim c) \<noteq> None"
  shows "\<exists>s. extractDate_from h cs n c = Inr s"
  using assms
  by (induction cs arbitrary: c) (auto simp: Let_def iso_date_of_def split: option.splits)

text \<open>
  When the first cell that matches the date pattern is not a date for the host,
  \<^verbatim>\<open>toISOString\<close> throws, and the exception leaves \<^verbatim>\<open>extractDate\<close> and
  \<^verbatim>\<open>parseRowData\<close>.
\<close>

lemma extractDate_from_throws:
  assumes "matches_date_pattern (trim c)" "Date_parse h (trim c) = None"
    "\<forall>c' \<in> set before. \<not> matches_date_pattern (trim c')"
  shows "extractDate_from h (before @ c # rest) n n = Inl RangeError"
  using assms by (induction before) (simp_all add: Let_def iso_date_of_def)

lemma parseRowData_throws:
  assumes "matches_date_pattern (trim c)" "Date_parse h (trim c) = None"
    "\<forall>c' \<in> set before. \<not> matches_date_pattern (trim c')"
    "cells row = before @ c # rest" "rowDataCache dm idx = None"
  shows "parseRowData h dm row idx = Inl RangeError"
  using extractDate_from_throws [OF assms(1-3), of rest 0] assms(4,5)
  by (simp add: parseRowData_def extractDate_def)

lemma matches_The_Big_12_pack: "matches_date_pattern (trim ''The Big 12 pack'')"
  by (simp add: trim_def matches_date_pattern_def is_space_def is_word_def is_upper_def
      is_lower_def is_digit_def)

lemma no_match_before:
  "\<forall>c' \<in> set [''GB-AEU-2025-0001'', ''Amazon.de'']. \<not> matches_date_pattern (trim c')"
  by (simp add: trim_def matches_date_pattern_def is_space_def is_word_def is_upper_def
      is_lower_def is_digit_def)

text \<open>
  Claim C2 fails on the code. A cell whose text begins like a date, three word
  characters, a space, three word characters, a space and two digits, but which the
  host's date parser does not accept, makes \<^verbatim>\<open>new Date(text)\<close> an invalid date, and
  \<^verbatim>\<open>toISOString\<close> throws a \<^verbatim>\<open>RangeError\<close> on it. Neither \<^verbatim>\<open>extractDate\<close> nor
  \<^verbatim>\<open>parseRowData\<close> nor the helpers of \<^verbatim>\<open>content.js\<close> catch it, so the row parser
  throws instead of returning an empty date.
\<close>

theorem row_parser_throws_on_invalid_date:
  "matches_date_pattern (trim ''The Big 12 pack'')
   \<and> Date_parse sample_host (trim ''The Big 12 pack'') = None
   \<and> extractDate sample_host (cells failing_row) 0 = Inl RangeError
   \<and> extractStartDate sample_host (cells failing_row) = Inl RangeError
   \<and> parseRowData sample_host new_InvoiceDataManager failing_row 0 = Inl RangeError"
proof -
  have nan: "Date_parse sample_host (trim ''The Big 12 pack'') = None"
    by (simp add: sample_host_def trim_def is_space_def)
  have cells: "cells failing_row = [''GB-AEU-2025-0001'', ''Amazon.de''] @ ''The Big 12 pack'' # []"
    by (simp add: failing_row_def)
  have "extractDate_from sample_host (cells failing_row) 0 0 = Inl RangeError"
    unfolding cells
    using matches_The_Big_12_pack nan no_match_before by (rule extractDate_from_throws)
  then have dates: "extractDate sample_host (cells failing_row) 0 = Inl RangeError"
    "extractStartDate sample_host (cells failing_row) = Inl RangeError"
    by (simp_all add: extractDate_def extractStartDate_is_first_occurrence)
  have "parseRowData sample_host new_InvoiceDataManager failing_row 0 = Inl RangeError"
    using matches_The_Big_12_pack nan no_match_before cells
    by (rule parseRowData_throws) (simp add: new_InvoiceDataManager_def)
  with matches_The_Big_12_pack nan dates show ?thesis
    by simp
qed

end
